theory Spec2Isabelle
  imports Complex_Main
begin

section \<open>Shallow embedding of \<open>rrdf_sync.py\<close>\<close>

text \<open>
  The script synchronises raw \<open>.h5\<close> files of a scanner with the DICOM acquisition
  folders of a local export tree. Its decision logic is embedded function by function,
  under the names of the source. Everything the script obtains from a library (the
  directory listings behind \<open>glob\<close>, \<open>pydicom\<close>, \<open>shutil.move\<close>,
  \<open>os.rename\<close>, \<open>os.walk\<close>, the transfer) is a field of an environment record
  that every function takes as its first argument, so the theorems hold for every
  behaviour of those libraries. A theorem about a move or a rename states the call
  the script issues and the world the library returns for it; what the call does to the
  files is the library's. File names and paths are the byte strings the file system
  stores (\<open>string\<close>), which Python reads as UTF-8; the listing of the scanner is the
  byte string that \<open>stdout.read()\<close> returns.
\<close>

subsection \<open>Exceptions and console output\<close>

datatype exn =
    ValueError | IndexError | AttributeError | OSError | ShutilError | FileNotFoundError
  | IsADirectoryError | TransferError | UnicodeDecodeError

type_synonym path = string

text \<open>One constructor per \<open>print\<close> statement of the source, with its interpolated values.\<close>

datatype event =
    CaliprStart string
  | CaliprWrongCount nat
  | CaliprReadError exn
  | CaliprRenamingPD string
  | CaliprRenamingT2 string
  | CaliprRenameError exn
  | WarnDicomMetadata path exn
  | StartRelocation
  | MatchFound string string
  | Renaming string string
  | MoveRenameError exn
  | NoCloseMatch string
  | ErrParseFolderName string
  | Searching string
  | FoundSession path
  | ErrNoSession string
  | NoExamFiles
  | LatestExam string
  | Downloading string
  | DownloadComplete
  | SkippingRelocation
  | CleanedUp
  | ClosingConnection

subsection \<open>Strings\<close>

definition is_digit :: "char \<Rightarrow> bool" where
  "is_digit c = (c \<in> set ''0123456789'')"

definition all_digits :: "string \<Rightarrow> bool" where
  "all_digits s = list_all is_digit s"

definition digit_val :: "char \<Rightarrow> int" where
  "digit_val c = of_char c - 48"

text \<open>\<open>int(s)\<close> for a string of decimal digits.\<close>

definition int_of_digits :: "string \<Rightarrow> int" where
  "int_of_digits s = foldl (\<lambda>acc c. 10 * acc + digit_val c) 0 s"

fun strip_prefix :: "string \<Rightarrow> string \<Rightarrow> string option" where
  "strip_prefix [] s = Some s"
| "strip_prefix (p # ps) [] = None"
| "strip_prefix (p # ps) (c # cs) = (if p = c then strip_prefix ps cs else None)"

definition ends_with :: "string \<Rightarrow> string \<Rightarrow> bool" where
  "ends_with suf s = (strip_prefix (rev suf) (rev s) \<noteq> None)"

text \<open>\<open>sub in s\<close>.\<close>

fun py_in :: "string \<Rightarrow> string \<Rightarrow> bool" where
  "py_in sub [] = (sub = [])"
| "py_in sub (c # cs) = (strip_prefix sub (c # cs) \<noteq> None \<or> py_in sub cs)"

text \<open>\<open>str.lower\<close> on ASCII letters.\<close>

definition lower_char :: "char \<Rightarrow> char" where
  "lower_char c =
     (let n = (of_char c :: int) in if 65 \<le> n \<and> n \<le> 90 then char_of (n + 32) else c)"

definition py_lower :: "string \<Rightarrow> string" where
  "py_lower s = map lower_char s"

text \<open>\<open>s.split(sep)\<close> for a one-character separator: always at least one part.\<close>

fun split_on :: "char \<Rightarrow> string \<Rightarrow> string list" where
  "split_on sep [] = [[]]"
| "split_on sep (c # cs) =
     (case split_on sep cs of
        [] \<Rightarrow> (if c = sep then [[], []] else [[c]])
      | p # ps \<Rightarrow> (if c = sep then [] # p # ps else (c # p) # ps))"

text \<open>The ASCII characters that \<open>str.split()\<close> treats as whitespace.\<close>

definition is_space :: "char \<Rightarrow> bool" where
  "is_space c = (let n = (of_char c :: int) in (9 \<le> n \<and> n \<le> 13) \<or> (28 \<le> n \<and> n \<le> 32))"

text \<open>\<open>s.split()\<close>: the maximal runs of non-whitespace characters.\<close>

fun split_ws_aux :: "string \<Rightarrow> string \<Rightarrow> string list" where
  "split_ws_aux cur [] = (if cur = [] then [] else [rev cur])"
| "split_ws_aux cur (c # cs) =
     (if is_space c then (if cur = [] then split_ws_aux [] cs else rev cur # split_ws_aux [] cs)
      else split_ws_aux (c # cur) cs)"

definition split_ws :: "string \<Rightarrow> string list" where
  "split_ws s = split_ws_aux [] s"

subsection \<open>\<open>os.path\<close> (POSIX)\<close>

definition slash :: char where
  "slash = CHR ''/''"

definition path_join :: "path \<Rightarrow> path \<Rightarrow> path" where
  "path_join a b =
     (if b \<noteq> [] \<and> hd b = slash then b
      else if a = [] \<or> last a = slash then a @ b
      else a @ [slash] @ b)"

definition basename :: "path \<Rightarrow> string" where
  "basename p = rev (takeWhile (\<lambda>c. c \<noteq> slash) (rev p))"

definition rstrip_slash :: "path \<Rightarrow> path" where
  "rstrip_slash p = rev (dropWhile (\<lambda>c. c = slash) (rev p))"

text \<open>\<open>os.path.split\<close>: the head loses its trailing slashes unless it is all slashes.\<close>

definition path_split :: "path \<Rightarrow> path \<times> string" where
  "path_split p =
     (let head = rev (dropWhile (\<lambda>c. c \<noteq> slash) (rev p)) in
      (if head \<noteq> [] \<and> \<not> list_all (\<lambda>c. c = slash) head then rstrip_slash head else head,
       basename p))"

fun normpath_comps :: "bool \<Rightarrow> string list \<Rightarrow> string list \<Rightarrow> string list" where
  "normpath_comps rooted acc [] = rev acc"
| "normpath_comps rooted acc (part # parts) =
     (if part = [] \<or> part = ''.'' then normpath_comps rooted acc parts
      else if part \<noteq> ''..'' \<or> (\<not> rooted \<and> acc = []) \<or> (acc \<noteq> [] \<and> hd acc = ''..'')
        then normpath_comps rooted (part # acc) parts
      else if acc \<noteq> [] then normpath_comps rooted (tl acc) parts
      else normpath_comps rooted acc parts)"

fun join_slash :: "string list \<Rightarrow> string" where
  "join_slash [] = []"
| "join_slash [c] = c"
| "join_slash (c # cs) = c @ [slash] @ join_slash cs"

definition normpath :: "path \<Rightarrow> path" where
  "normpath p =
     (if p = [] then ''.''
      else
        let initial_slashes =
              (if strip_prefix ''/'' p = None then (0::nat)
               else if strip_prefix ''//'' p \<noteq> None \<and> strip_prefix ''///'' p = None then 2
               else 1);
            comps = normpath_comps (initial_slashes \<noteq> 0) [] (split_on slash p);
            q = replicate initial_slashes slash @ join_slash comps
        in if q = [] then ''.'' else q)"

subsection \<open>\<open>datetime\<close>\<close>

text \<open>
  A naive \<open>datetime\<close> is the number of microseconds since 0001-01-01T00:00:00, a
  \<open>timedelta\<close> a number of microseconds; subtraction and comparison are then those
  of the integers, as in CPython, which subtracts ordinal days, seconds and
  microseconds exactly. The calendar functions are those of \<open>datetime.py\<close>, on
  Python's integers.
\<close>

type_synonym datetime = int
type_synonym timedelta = int

definition is_leap :: "int \<Rightarrow> bool" where
  "is_leap y = (y mod 4 = 0 \<and> (y mod 100 \<noteq> 0 \<or> y mod 400 = 0))"

definition days_in_month :: "int \<Rightarrow> int \<Rightarrow> int" where
  "days_in_month y m =
     (if m = 2 then (if is_leap y then 29 else 28)
      else if m = 4 \<or> m = 6 \<or> m = 9 \<or> m = 11 then 30 else 31)"

definition days_before_year :: "int \<Rightarrow> int" where
  "days_before_year year = (let y = year - 1 in y * 365 + y div 4 - y div 100 + y div 400)"

definition days_before_month :: "int \<Rightarrow> int \<Rightarrow> int" where
  "days_before_month y m = sum_list (map (days_in_month y) [1..m - 1])"

definition ymd2ord :: "int \<Rightarrow> int \<Rightarrow> int \<Rightarrow> int" where
  "ymd2ord y m d = days_before_year y + days_before_month y m + d"

definition mk_datetime :: "int \<Rightarrow> int \<Rightarrow> int \<Rightarrow> int \<Rightarrow> int \<Rightarrow> int \<Rightarrow> int \<Rightarrow> datetime" where
  "mk_datetime y m d hh mm ss us =
     ((((ymd2ord y m d - 1) * 24 + hh) * 60 + mm) * 60 + ss) * 1000000 + us"

definition td_days :: "nat \<Rightarrow> timedelta" where
  "td_days n = int n * 86400000000"

definition td_minutes :: "nat \<Rightarrow> timedelta" where
  "td_minutes n = int n * 60000000"

definition td_seconds :: "nat \<Rightarrow> timedelta" where
  "td_seconds n = int n * 1000000"

text \<open>
  The constructor \<open>datetime(y, m, d, H, M, S)\<close>, which raises \<open>ValueError\<close> outside
  the calendar.
\<close>

definition datetime_of_fields ::
  "int \<Rightarrow> int \<Rightarrow> int \<Rightarrow> int \<Rightarrow> int \<Rightarrow> int \<Rightarrow> exn + datetime" where
  "datetime_of_fields y m d hh mm ss =
     (if 1 \<le> y \<and> y \<le> 9999 \<and> 1 \<le> m \<and> m \<le> 12 \<and> 1 \<le> d \<and> d \<le> days_in_month y m
         \<and> 0 \<le> hh \<and> hh \<le> 23 \<and> 0 \<le> mm \<and> mm \<le> 59 \<and> 0 \<le> ss \<and> ss \<le> 59
      then Inr (mk_datetime y m d hh mm ss 0) else Inl ValueError)"

subsection \<open>Decimal digits\<close>

text \<open>
  In a \<open>str\<close>, the class \<open>\d\<close> and \<open>int()\<close> accept every character of
  category Nd. The ten ASCII digits are fixed. For any other character the digits are
  those of the Unicode database of the interpreter: \<open>dec\<close>, the field
  \<open>unicode_decimal\<close> of the environment below, gives \<open>unicodedata.decimal\<close> from
  the bytes of the character's UTF-8 encoding, and \<open>None\<close> when the bytes are not the
  encoding of a decimal digit. \<open>utf8_len\<close> is the length of the encoding that a
  leading byte announces (0 for a byte that starts no character). A digit is kept as a
  pair: whether it is an ASCII digit, and its value.
\<close>

definition utf8_len :: "char \<Rightarrow> nat" where
  "utf8_len c =
     (let b = (of_char c :: int)
      in if b < 128 then 1
         else if 194 \<le> b \<and> b < 224 then 2
         else if 224 \<le> b \<and> b < 240 then 3
         else if 240 \<le> b \<and> b < 245 then 4
         else 0)"

type_synonym digit = "bool \<times> int"

text \<open>The digit at the start of a string: its bytes, the digit, and the rest.\<close>

definition digit_at :: "(string \<Rightarrow> int option) \<Rightarrow> string \<Rightarrow> (string \<times> digit \<times> string) option" where
  "digit_at dec s =
     (case s of
        [] \<Rightarrow> None
      | c # cs \<Rightarrow>
          if is_digit c then Some ([c], (True, digit_val c), cs)
          else if 2 \<le> utf8_len c \<and> utf8_len c \<le> length s
          then (case dec (take (utf8_len c) s) of
                  None \<Rightarrow> None
                | Some v \<Rightarrow> Some (take (utf8_len c) s, (False, v), drop (utf8_len c) s))
          else None)"

text \<open>\<open>\d{n}\<close> at the start of a string: the bytes matched, the digits, and the rest.\<close>

fun read_digits ::
  "(string \<Rightarrow> int option) \<Rightarrow> nat \<Rightarrow> string \<Rightarrow> (string \<times> digit list \<times> string) option" where
  "read_digits dec 0 s = Some ([], [], s)"
| "read_digits dec (Suc n) s =
     (case digit_at dec s of
        None \<Rightarrow> None
      | Some (c, x, r) \<Rightarrow>
          (case read_digits dec n r of
             None \<Rightarrow> None
           | Some (d, xs, r') \<Rightarrow> Some (c @ d, x # xs, r')))"

text \<open>An ASCII digit between \<open>lo\<close> and \<open>hi\<close>: the class \<open>[lo-hi]\<close>.\<close>

definition ascii_in :: "digit \<Rightarrow> int \<Rightarrow> int \<Rightarrow> bool" where
  "ascii_in x lo hi = (fst x \<and> lo \<le> snd x \<and> snd x \<le> hi)"

text \<open>\<open>int()\<close> of a string of digits.\<close>

definition int_of :: "digit list \<Rightarrow> int" where
  "int_of xs = foldl (\<lambda>n x. 10 * n + snd x) 0 xs"

text \<open>
  \<open>strptime(date_part + time_part, "%Y%m%d%H%M%S")\<close> on eight and six digits, the
  only arguments \<open>parse_rrdf_timestamps\<close> passes. The regular expression that
  \<open>_strptime\<close> builds for the format is
  \<open>(\d\d\d\d)(1[0-2]|0[1-9]|[1-9])(3[0-1]|[1-2]\d|0[1-9]|[1-9]| [1-9])(2[0-3]|[0-1]\d|\d)([0-5]\d|\d)(6[0-1]|[0-5]\d|\d)\<close>
  and the whole string must be consumed, so on fourteen digits every field has its full
  width or the call raises; the two-character alternatives of a field exclude one
  another. A class \<open>[a-b]\<close> holds ASCII digits only, \<open>\d\<close> any decimal digit.
  The fields are then converted with \<open>int()\<close> and given to \<open>datetime\<close>.
\<close>

definition strptime_compact :: "(string \<Rightarrow> int option) \<Rightarrow> string \<Rightarrow> string \<Rightarrow> exn + datetime" where
  "strptime_compact dec date_part time_part =
     (case read_digits dec 14 (date_part @ time_part) of
        None \<Rightarrow> Inl ValueError
      | Some (bytes, xs, rest) \<Rightarrow>
          if rest = []
             \<and> (ascii_in (xs ! 4) 1 1 \<and> ascii_in (xs ! 5) 0 2 \<or> ascii_in (xs ! 4) 0 0 \<and> ascii_in (xs ! 5) 1 9)
             \<and> (ascii_in (xs ! 6) 3 3 \<and> ascii_in (xs ! 7) 0 1 \<or> ascii_in (xs ! 6) 1 2
                  \<or> ascii_in (xs ! 6) 0 0 \<and> ascii_in (xs ! 7) 1 9)
             \<and> (ascii_in (xs ! 8) 2 2 \<and> ascii_in (xs ! 9) 0 3 \<or> ascii_in (xs ! 8) 0 1)
             \<and> ascii_in (xs ! 10) 0 5
             \<and> (ascii_in (xs ! 12) 6 6 \<and> ascii_in (xs ! 13) 0 1 \<or> ascii_in (xs ! 12) 0 5)
          then datetime_of_fields
                 (int_of (take 4 xs))
                 (int_of (take 2 (drop 4 xs)))
                 (int_of (take 2 (drop 6 xs)))
                 (int_of (take 2 (drop 8 xs)))
                 (int_of (take 2 (drop 10 xs)))
                 (int_of (take 2 (drop 12 xs)))
          else Inl ValueError)"

subsection \<open>The two regular expressions\<close>

text \<open>
  Both patterns have the shape \<open>pre (\d{8}) _ (\d{6}) post\<close> with literal \<open>pre\<close> and
  \<open>post\<close>. The exam-folder name is searched after \<open>decode('ascii')\<close> (line 192),
  where a digit is one of \<open>0\<close>..\<open>9\<close>: \<open>match_stamp\<close> matches at the start of
  such a string, \<open>re_search\<close> is \<open>re.search\<close>, the leftmost position that matches.
\<close>

definition match_stamp :: "string \<Rightarrow> string \<Rightarrow> string \<Rightarrow> (string \<times> string) option" where
  "match_stamp pre post s =
     (case strip_prefix pre s of
        None \<Rightarrow> None
      | Some r1 \<Rightarrow>
          let d = take 8 r1 in
          if length d = 8 \<and> all_digits d then
            (case strip_prefix ''_'' (drop 8 r1) of
               None \<Rightarrow> None
             | Some r3 \<Rightarrow>
                 let t = take 6 r3 in
                 if length t = 6 \<and> all_digits t then
                   (case strip_prefix post (drop 6 r3) of
                      None \<Rightarrow> None
                    | Some r5 \<Rightarrow> Some (d, t))
                 else None)
          else None)"

fun re_search :: "string \<Rightarrow> string \<Rightarrow> string \<Rightarrow> (string \<times> string) option" where
  "re_search pre post [] = match_stamp pre post []"
| "re_search pre post (c # cs) =
     (case match_stamp pre post (c # cs) of
        Some g \<Rightarrow> Some g
      | None \<Rightarrow> re_search pre post cs)"

text \<open>
  \<open>re.search(r'_(\d{8})_(\d{6})\.h5', filename)\<close> on the name of a file of the disk,
  which may hold any character: \<open>match_h5\<close> matches at the start of the name. The
  pattern starts with an ASCII character, so it matches at the start of a character only
  and the leftmost match by bytes is the leftmost match by characters.
\<close>

definition match_h5 :: "(string \<Rightarrow> int option) \<Rightarrow> string \<Rightarrow> (string \<times> string) option" where
  "match_h5 dec s =
     (case strip_prefix ''_'' s of
        None \<Rightarrow> None
      | Some r1 \<Rightarrow>
          (case read_digits dec 8 r1 of
             None \<Rightarrow> None
           | Some (d, xs, r2) \<Rightarrow>
               (case strip_prefix ''_'' r2 of
                  None \<Rightarrow> None
                | Some r3 \<Rightarrow>
                    (case read_digits dec 6 r3 of
                       None \<Rightarrow> None
                     | Some (t, ys, r4) \<Rightarrow>
                         (case strip_prefix ''.h5'' r4 of
                            None \<Rightarrow> None
                          | Some r5 \<Rightarrow> Some (d, t))))))"

fun search_h5 :: "(string \<Rightarrow> int option) \<Rightarrow> string \<Rightarrow> (string \<times> string) option" where
  "search_h5 dec [] = match_h5 dec []"
| "search_h5 dec (c # cs) =
     (case match_h5 dec (c # cs) of
        Some g \<Rightarrow> Some g
      | None \<Rightarrow> search_h5 dec cs)"

text \<open>\<open>re.search(r'rrdf_(\d{8})_(\d{6})', rrdf_folder_name)\<close>\<close>

definition search_rrdf :: "string \<Rightarrow> (string \<times> string) option" where
  "search_rrdf name = re_search ''rrdf_'' [] name"

subsection \<open>Dictionaries and floats\<close>

text \<open>
  A \<open>dict\<close> is an association list in insertion order; assigning to a key that is
  present replaces its value in place.
\<close>

fun dict_set :: "('k \<times> 'v) list \<Rightarrow> 'k \<Rightarrow> 'v \<Rightarrow> ('k \<times> 'v) list" where
  "dict_set [] k v = [(k, v)]"
| "dict_set ((k', v') # kvs) k v =
     (if k' = k then (k, v) # kvs else (k', v') # dict_set kvs k v)"

text \<open>
  The values of \<open>float(...)\<close> with the comparison \<open><\<close> of IEEE doubles: every
  comparison with \<open>NaN\<close> is false.
\<close>

datatype pyfloat = NaN | NegInf | Finite rat | PosInf

fun float_lt :: "pyfloat \<Rightarrow> pyfloat \<Rightarrow> bool" where
  "float_lt NaN y = False"
| "float_lt x NaN = False"
| "float_lt x NegInf = False"
| "float_lt NegInf y = True"
| "float_lt PosInf y = False"
| "float_lt (Finite a) PosInf = True"
| "float_lt (Finite a) (Finite b) = (a < b)"

subsection \<open>The environment\<close>

text \<open>
  \<open>'w\<close> is the state of the world (the local file system). A library call that can
  raise returns the exception, if any, together with the world it leaves behind.
  \<^item> \<open>scandir w d\<close>: the entry names of directory \<open>d\<close>, each with its is-directory
    flag, in the order the operating system lists them (nothing for a directory that
    cannot be listed);
  \<^item> \<open>iglob_dirs w pat\<close>: the directories that \<open>glob\<close> finds for a directory
    pattern \<open>pat\<close> holding one of \<open>*\<close>, \<open>?\<close>, \<open>[\<close>;
  \<^item> \<open>unicode_decimal\<close>: the decimal digits beyond ASCII, as described above;
  \<^item> \<open>read_AcquisitionDateTime w p\<close>: lines 101 and 103 of the source,
    \<open>strptime(dcmread(p).AcquisitionDateTime, "%Y%m%d%H%M%S.%f")\<close>;
  \<^item> \<open>read_ContentTime w p\<close>: lines 68 to 70, \<open>float(dcmread(p).ContentTime)\<close>;
  \<^item> \<open>os_walk w d\<close>: the \<open>(root, dirs)\<close> pairs that \<open>os.walk(d)\<close> yields, in order;
  \<^item> \<open>download w remote\<close>: lines 227 to 232, emptying the temporary directory and
    fetching the remote folder into it;
  \<^item> \<open>cleanup w\<close>: lines 254 and 255, with the result of \<open>os.path.exists\<close>.
\<close>

record 'w env =
  scandir :: "'w \<Rightarrow> path \<Rightarrow> (string \<times> bool) list"
  iglob_dirs :: "'w \<Rightarrow> path \<Rightarrow> path list"
  unicode_decimal :: "string \<Rightarrow> int option"
  read_AcquisitionDateTime :: "'w \<Rightarrow> path \<Rightarrow> exn + datetime"
  read_ContentTime :: "'w \<Rightarrow> path \<Rightarrow> exn + pyfloat"
  shutil_move :: "'w \<Rightarrow> path \<Rightarrow> path \<Rightarrow> exn option \<times> 'w"
  os_rename :: "'w \<Rightarrow> path \<Rightarrow> path \<Rightarrow> exn option \<times> 'w"
  os_walk :: "'w \<Rightarrow> path \<Rightarrow> (path \<times> string list) list"
  download :: "'w \<Rightarrow> string \<Rightarrow> exn option \<times> 'w"
  cleanup :: "'w \<Rightarrow> bool \<times> 'w"

text \<open>What a function leaves behind: the world and the console output so far.\<close>

datatype 'w outcome = Done 'w "event list" | Raised exn 'w "event list"

subsection \<open>\<open>glob\<close>\<close>

text \<open>
  \<open>glob.glob\<close> splits a pattern into its directory part and its last component. The
  last component of the two patterns below is \<open>*<ext>\<close> or empty; it is matched
  against the entries of every directory that the directory part stands for: the
  directory part itself when it holds no pattern character, the directories that
  \<open>glob\<close> finds for it otherwise. \<open>glob\<close> skips the names that start with a dot; a
  directory entry is never the empty name.
\<close>

definition has_magic :: "string \<Rightarrow> bool" where
  "has_magic s = (\<exists>c \<in> set s. c = CHR ''*'' \<or> c = CHR ''?'' \<or> c = CHR ''['')"

definition glob_dirs :: "'w env \<Rightarrow> 'w \<Rightarrow> path \<Rightarrow> path list" where
  "glob_dirs E w dirname = (if has_magic dirname then iglob_dirs E w dirname else [dirname])"

definition visible :: "string \<Rightarrow> bool" where
  "visible n = (case n of [] \<Rightarrow> False | c # cs \<Rightarrow> c \<noteq> CHR ''.'')"

text \<open>\<open>glob.glob(os.path.join(folder, '*' + ext))\<close>\<close>

definition glob_files :: "'w env \<Rightarrow> 'w \<Rightarrow> path \<Rightarrow> string \<Rightarrow> path list" where
  "glob_files E w folder ext =
     (let dirname = fst (path_split (path_join folder (''*'' @ ext)))
      in concat (map (\<lambda>dir. map (\<lambda>e. path_join dir (fst e))
                              (filter (\<lambda>e. visible (fst e) \<and> ends_with ext (fst e)) (scandir E w dir)))
                   (glob_dirs E w dirname)))"

text \<open>\<open>glob.glob(os.path.join(session_path, '*/'))\<close>: every result ends with a slash.\<close>

definition glob_subdirs :: "'w env \<Rightarrow> 'w \<Rightarrow> path \<Rightarrow> path list" where
  "glob_subdirs E w session_path =
     (let d1 = fst (path_split (path_join session_path ''*/''));
          d2 = fst (path_split d1)
      in concat (map (\<lambda>dir. map (\<lambda>e. path_join (path_join dir (fst e)) [])
                              (filter (\<lambda>e. snd e \<and> visible (fst e)) (scandir E w dir)))
                   (glob_dirs E w d2)))"

subsection \<open>\<open>rename_calipr_dicom_files\<close>\<close>

text \<open>The loop of lines 67 to 70: the first read that raises ends it.\<close>

fun read_content_times :: "'w env \<Rightarrow> 'w \<Rightarrow> path list \<Rightarrow> exn + (path \<times> pyfloat) list" where
  "read_content_times E w [] = Inr []"
| "read_content_times E w (f_path # rest) =
     (case read_ContentTime E w f_path of
        Inl e \<Rightarrow> Inl e
      | Inr t \<Rightarrow>
          (case read_content_times E w rest of
             Inl e \<Rightarrow> Inl e
           | Inr file_times \<Rightarrow> Inr ((f_path, t) # file_times)))"

text \<open>
  \<open>file_times.sort(key=lambda x: x['time'])\<close> as a stable insertion sort. On a list
  of two entries, the only length that reaches it, this is what \<open>list.sort\<close> does for
  any comparison: the entries are swapped exactly when the second key is \<open><\<close> the first.
\<close>

fun insort_time :: "path \<times> pyfloat \<Rightarrow> (path \<times> pyfloat) list \<Rightarrow> (path \<times> pyfloat) list" where
  "insort_time x [] = [x]"
| "insort_time x (y # ys) =
     (if float_lt (snd x) (snd y) then x # y # ys else y # insort_time x ys)"

definition sort_by_time :: "(path \<times> pyfloat) list \<Rightarrow> (path \<times> pyfloat) list" where
  "sort_by_time file_times = foldl (\<lambda>acc x. insort_time x acc) [] file_times"

definition rename_calipr_dicom_files ::
  "'w env \<Rightarrow> path \<Rightarrow> 'w \<Rightarrow> event list \<Rightarrow> 'w outcome" where
  "rename_calipr_dicom_files E acquisition_folder_path w out0 =
     (let base_name = basename (normpath acquisition_folder_path);
          out = out0 @ [CaliprStart base_name];
          dcm_files = glob_files E w acquisition_folder_path ''.dcm''
      in if length dcm_files \<noteq> 2 then Done w (out @ [CaliprWrongCount (length dcm_files)])
         else
           (case read_content_times E w dcm_files of
              Inl e \<Rightarrow> Done w (out @ [CaliprReadError e])
            | Inr file_times \<Rightarrow>
                (case sort_by_time file_times of
                   pd # t2 # others \<Rightarrow>
                     (let new_protonDensity_path =
                            path_join acquisition_folder_path (base_name @ ''_protonDensity.dcm'');
                          new_T2map_path =
                            path_join acquisition_folder_path (base_name @ ''_T2map.dcm'');
                          out1 = out @ [CaliprRenamingPD (basename new_protonDensity_path)]
                      in case os_rename E w (fst pd) new_protonDensity_path of
                           (Some e, w1) \<Rightarrow> Done w1 (out1 @ [CaliprRenameError e])
                         | (None, w1) \<Rightarrow>
                             (let out2 = out1 @ [CaliprRenamingT2 (basename new_T2map_path)]
                              in case os_rename E w1 (fst t2) new_T2map_path of
                                   (Some e, w2) \<Rightarrow> Done w2 (out2 @ [CaliprRenameError e])
                                 | (None, w2) \<Rightarrow> Done w2 out2))
                 | _ \<Rightarrow> Raised IndexError w out)))"

subsection \<open>\<open>get_dicom_acquisition_times\<close> and \<open>parse_rrdf_timestamps\<close>\<close>

fun acq_times_loop ::
  "'w env \<Rightarrow> 'w \<Rightarrow> path list \<Rightarrow> (path \<times> datetime) list \<times> event list
     \<Rightarrow> (path \<times> datetime) list \<times> event list" where
  "acq_times_loop E w [] acc = acc"
| "acq_times_loop E w (folder_path # rest) (acq_times, out) =
     (case glob_files E w folder_path ''.dcm'' of
        [] \<Rightarrow> acq_times_loop E w rest (acq_times, out)
      | first # others \<Rightarrow>
          (case read_AcquisitionDateTime E w first of
             Inl e \<Rightarrow> acq_times_loop E w rest (acq_times, out @ [WarnDicomMetadata first e])
           | Inr acq_datetime \<Rightarrow>
               acq_times_loop E w rest (dict_set acq_times folder_path acq_datetime, out)))"

definition get_dicom_acquisition_times ::
  "'w env \<Rightarrow> 'w \<Rightarrow> path \<Rightarrow> event list \<Rightarrow> (path \<times> datetime) list \<times> event list" where
  "get_dicom_acquisition_times E w session_path out =
     acq_times_loop E w (glob_subdirs E w session_path) ([], out)"

text \<open>
  The loop of \<open>parse_rrdf_timestamps\<close>. No handler surrounds \<open>strptime\<close>: its
  \<open>ValueError\<close> leaves the function.
\<close>

fun rrdf_times_loop ::
  "(string \<Rightarrow> int option) \<Rightarrow> path list \<Rightarrow> (path \<times> datetime) list \<Rightarrow> exn + (path \<times> datetime) list" where
  "rrdf_times_loop dec [] rrdf_times = Inr rrdf_times"
| "rrdf_times_loop dec (file_path # rest) rrdf_times =
     (case search_h5 dec (basename file_path) of
        None \<Rightarrow> rrdf_times_loop dec rest rrdf_times
      | Some (date_part, time_part) \<Rightarrow>
          (case strptime_compact dec date_part time_part of
             Inl e \<Rightarrow> Inl e
           | Inr rrdf_datetime \<Rightarrow>
               rrdf_times_loop dec rest (dict_set rrdf_times file_path rrdf_datetime)))"

definition parse_rrdf_timestamps ::
  "'w env \<Rightarrow> 'w \<Rightarrow> path \<Rightarrow> exn + (path \<times> datetime) list" where
  "parse_rrdf_timestamps E w rrdf_folder_path =
     rrdf_times_loop (unicode_decimal E) (glob_files E w rrdf_folder_path ''.h5'') []"

subsection \<open>\<open>relocate_rrdf_files_by_time\<close>\<close>

text \<open>The inner loop, lines 132 to 135.\<close>

fun find_best_match ::
  "(path \<times> datetime) list \<Rightarrow> datetime \<Rightarrow> path option \<times> timedelta \<Rightarrow> path option \<times> timedelta" where
  "find_best_match [] rrdf_time acc = acc"
| "find_best_match ((folder_path, dicom_datetime) # rest) rrdf_time (best_match_folder, min_time_diff) =
     (let time_diff = \<bar>dicom_datetime - rrdf_time\<bar>
      in if time_diff < min_time_diff
         then find_best_match rest rrdf_time (Some folder_path, time_diff)
         else find_best_match rest rrdf_time (best_match_folder, min_time_diff))"

text \<open>Lines 139 to 156: the \<open>try\<close> block with its handler.\<close>

definition move_and_rename ::
  "'w env \<Rightarrow> path \<Rightarrow> path \<Rightarrow> 'w \<Rightarrow> event list \<Rightarrow> 'w \<times> event list" where
  "move_and_rename E rrdf_path best_match_folder w out =
     (let original_rrdf_filename = basename rrdf_path;
          dest_foldername = basename (normpath best_match_folder);
          out1 = out @ [MatchFound original_rrdf_filename dest_foldername]
      in case shutil_move E w rrdf_path best_match_folder of
           (Some e, w1) \<Rightarrow> (w1, out1 @ [MoveRenameError e])
         | (None, w1) \<Rightarrow>
             (let moved_h5_path = path_join best_match_folder original_rrdf_filename;
                  new_h5_name = dest_foldername @ ''.h5'';
                  final_h5_path = path_join best_match_folder new_h5_name;
                  out2 = out1 @ [Renaming original_rrdf_filename new_h5_name]
              in case os_rename E w1 moved_h5_path final_h5_path of
                   (Some e, w2) \<Rightarrow> (w2, out2 @ [MoveRenameError e])
                 | (None, w2) \<Rightarrow>
                     if py_in ''calipr'' (py_lower dest_foldername)
                     then (case rename_calipr_dicom_files E best_match_folder w2 out2 of
                             Done w3 out3 \<Rightarrow> (w3, out3)
                           | Raised e w3 out3 \<Rightarrow> (w3, out3 @ [MoveRenameError e]))
                     else (w2, out2)))"

text \<open>The body of the outer loop, lines 130 to 158, for one entry of the index.\<close>

definition relocate_one ::
  "'w env \<Rightarrow> (path \<times> datetime) list \<Rightarrow> path \<times> datetime \<Rightarrow> 'w \<times> event list \<Rightarrow> 'w \<times> event list" where
  "relocate_one E dicom_acq_times entry st =
     (case find_best_match dicom_acq_times (snd entry) (None, td_days 1) of
        (Some best_match_folder, min_time_diff) \<Rightarrow>
          if best_match_folder \<noteq> [] \<and> min_time_diff < td_minutes 1
          then move_and_rename E (fst entry) best_match_folder (fst st) (snd st)
          else (fst st, snd st @ [NoCloseMatch (basename (fst entry))])
      | (None, min_time_diff) \<Rightarrow> (fst st, snd st @ [NoCloseMatch (basename (fst entry))]))"

fun relocate_loop ::
  "'w env \<Rightarrow> (path \<times> datetime) list \<Rightarrow> (path \<times> datetime) list \<Rightarrow> 'w \<times> event list
     \<Rightarrow> 'w \<times> event list" where
  "relocate_loop E dicom_acq_times [] st = st"
| "relocate_loop E dicom_acq_times (entry # rest) st =
     relocate_loop E dicom_acq_times rest (relocate_one E dicom_acq_times entry st)"

definition relocate_rrdf_files_by_time ::
  "'w env \<Rightarrow> path \<Rightarrow> path \<Rightarrow> 'w \<Rightarrow> event list \<Rightarrow> 'w outcome" where
  "relocate_rrdf_files_by_time E temp_download_path dicom_session_path w out0 =
     (case get_dicom_acquisition_times E w dicom_session_path (out0 @ [StartRelocation]) of
        (dicom_acq_times, out) \<Rightarrow>
          (case parse_rrdf_timestamps E w temp_download_path of
             Inl e \<Rightarrow> Raised e w out
           | Inr rrdf_file_times \<Rightarrow>
               (case relocate_loop E dicom_acq_times rrdf_file_times (w, out) of
                  (w', out') \<Rightarrow> Done w' out')))"

subsection \<open>\<open>find_dicom_session_path\<close>\<close>

text \<open>Lines 172 to 174.\<close>

definition session_name :: "string \<Rightarrow> string \<Rightarrow> string" where
  "session_name date_part time_part =
     take 4 date_part @ ''-'' @ take 2 (drop 4 date_part) @ ''-'' @ take 2 (drop 6 date_part)
       @ ''_'' @ take 2 time_part @ ''_'' @ take 2 (drop 2 time_part)
       @ ''_'' @ take 2 (drop 4 time_part)"

fun walk_find :: "(path \<times> string list) list \<Rightarrow> string \<Rightarrow> path option" where
  "walk_find [] target_session_name = None"
| "walk_find ((root_dir, dirs) # rest) target_session_name =
     (if target_session_name \<in> set dirs then Some (path_join root_dir target_session_name)
      else walk_find rest target_session_name)"

definition find_dicom_session_path ::
  "'w env \<Rightarrow> 'w \<Rightarrow> path \<Rightarrow> string \<Rightarrow> event list \<Rightarrow> path option \<times> event list" where
  "find_dicom_session_path E w base_export_path rrdf_folder_name out =
     (case search_rrdf rrdf_folder_name of
        None \<Rightarrow> (None, out @ [ErrParseFolderName rrdf_folder_name])
      | Some (date_part, time_part) \<Rightarrow>
          (let target_session_name = session_name date_part time_part;
               out1 = out @ [Searching target_session_name]
           in case walk_find (os_walk E w base_export_path) target_session_name of
                Some found_path \<Rightarrow> (Some found_path, out1 @ [FoundSession found_path])
              | None \<Rightarrow> (None, out1 @ [ErrNoSession target_session_name])))"

subsection \<open>\<open>get_latest_exam_folder\<close>\<close>

text \<open>
  \<open>strptime(date_str + " " + time_head, "%Y-%m-%d %H:%M:%S")\<close> for two tokens free of
  whitespace. The separators delimit the fields; the format's expression takes one or
  two digits for each field but the year, which has four.
\<close>

definition short_field :: "string \<Rightarrow> bool" where
  "short_field s = (1 \<le> length s \<and> length s \<le> 2 \<and> all_digits s)"

definition strptime_listing :: "string \<Rightarrow> string \<Rightarrow> exn + datetime" where
  "strptime_listing date_str time_head =
     (case split_on CHR ''-'' date_str of
        [ys, ms, ds] \<Rightarrow>
          (case split_on CHR '':'' time_head of
             [hs, mins, ss] \<Rightarrow>
               if length ys = 4 \<and> all_digits ys \<and> short_field ms \<and> short_field ds
                  \<and> short_field hs \<and> short_field mins \<and> short_field ss
               then datetime_of_fields (int_of_digits ys) (int_of_digits ms) (int_of_digits ds)
                      (int_of_digits hs) (int_of_digits mins) (int_of_digits ss)
               else Inl ValueError
           | _ \<Rightarrow> Inl ValueError)
      | _ \<Rightarrow> Inl ValueError)"

text \<open>
  Lines 195 to 198 for one line of the listing: \<open>finfo[-1]\<close>, \<open>finfo[5]\<close> and
  \<open>finfo[6]\<close> raise \<open>IndexError\<close> on a line of fewer than seven fields.
\<close>

definition parse_listing_line :: "string \<Rightarrow> exn + (string \<times> datetime)" where
  "parse_listing_line line =
     (let finfo = split_ws line
      in if length finfo < 7 then Inl IndexError
         else
           (case split_on CHR ''.'' (finfo ! 6) of
              [] \<Rightarrow> Inl IndexError
            | time_head # fraction \<Rightarrow>
                (case strptime_listing (finfo ! 5) time_head of
                   Inl e \<Rightarrow> Inl e
                 | Inr folder_datetime \<Rightarrow> Inr (last finfo, folder_datetime))))"

fun exam_folders_loop ::
  "string list \<Rightarrow> (string \<times> datetime) list \<Rightarrow> exn + (string \<times> datetime) list" where
  "exam_folders_loop [] exam_folders = Inr exam_folders"
| "exam_folders_loop (line # rest) exam_folders =
     (if py_in ''rrdf_'' line
      then (case parse_listing_line line of
              Inl e \<Rightarrow> Inl e
            | Inr (folder_name, folder_datetime) \<Rightarrow>
                exam_folders_loop rest (dict_set exam_folders folder_name folder_datetime))
      else exam_folders_loop rest exam_folders)"

text \<open>\<open>max(d, key=d.get)\<close>: the first key, in insertion order, whose value is maximal.\<close>

fun max_by_value :: "string \<times> datetime \<Rightarrow> (string \<times> datetime) list \<Rightarrow> string" where
  "max_by_value best [] = fst best"
| "max_by_value best (kv # kvs) =
     (if snd best < snd kv then max_by_value kv kvs else max_by_value best kvs)"

text \<open>\<open>bytes.decode('ascii')\<close>: a byte of 128 or more raises.\<close>

definition is_ascii :: "string \<Rightarrow> bool" where
  "is_ascii bytes = list_all (\<lambda>c. (of_char c :: int) < 128) bytes"

definition decode_ascii :: "string \<Rightarrow> exn + string" where
  "decode_ascii bytes = (if is_ascii bytes then Inr bytes else Inl UnicodeDecodeError)"

text \<open>
  The argument is what \<open>stdout.read()\<close> returns for \<open>ls -l --full-time RRDF\<close>:
  the bytes of the listing.
\<close>

definition get_latest_exam_folder :: "string \<Rightarrow> exn + string option" where
  "get_latest_exam_folder stdout_bytes =
     (case decode_ascii stdout_bytes of
        Inl e \<Rightarrow> Inl e
      | Inr stdout_text \<Rightarrow>
          (case exam_folders_loop (split_on (CHR 0x0A) stdout_text) [] of
             Inl e \<Rightarrow> Inl e
           | Inr [] \<Rightarrow> Inr None
           | Inr (kv # kvs) \<Rightarrow> Inr (Some (max_by_value kv kvs))))"

subsection \<open>\<open>main\<close>, from the listing on\<close>

definition DICOM_EXPORT_ROOT :: path where
  "DICOM_EXPORT_ROOT = ''/var/lib/orthanc/export''"

definition TEMP_DOWNLOAD_DIR :: path where
  "TEMP_DOWNLOAD_DIR = ''/tmp/rrdf_download''"

text \<open>The \<open>try\<close> block of \<open>main\<close>, lines 218 to 242. Nothing in it catches an exception.\<close>

definition main_try :: "'w env \<Rightarrow> string \<Rightarrow> 'w \<Rightarrow> 'w outcome" where
  "main_try E stdout_bytes w =
     (case get_latest_exam_folder stdout_bytes of
        Inl e \<Rightarrow> Raised e w []
      | Inr None \<Rightarrow> Done w [NoExamFiles]
      | Inr (Some latest_exam_folder) \<Rightarrow>
          if latest_exam_folder = [] then Done w [NoExamFiles]
          else
            (let remote_path = ''RRDF/'' @ latest_exam_folder;
                 out = [LatestExam latest_exam_folder, Downloading remote_path]
             in case download E w remote_path of
                  (Some e, w1) \<Rightarrow> Raised e w1 out
                | (None, w1) \<Rightarrow>
                    (let temp_local_rrdf_path = path_join TEMP_DOWNLOAD_DIR latest_exam_folder
                     in case find_dicom_session_path E w1 DICOM_EXPORT_ROOT latest_exam_folder
                               (out @ [DownloadComplete]) of
                          (Some dicom_session_path, out1) \<Rightarrow>
                            if dicom_session_path \<noteq> []
                            then relocate_rrdf_files_by_time E temp_local_rrdf_path
                                   dicom_session_path w1 out1
                            else Done w1 (out1 @ [SkippingRelocation])
                        | (None, out1) \<Rightarrow> Done w1 (out1 @ [SkippingRelocation]))))"

text \<open>The \<open>finally\<close> block, lines 252 to 258: it runs on both ways out.\<close>

definition finally_cleanup :: "'w env \<Rightarrow> 'w \<Rightarrow> event list \<Rightarrow> 'w \<times> event list" where
  "finally_cleanup E w out =
     (case cleanup E w of
        (True, w') \<Rightarrow> (w', out @ [CleanedUp, ClosingConnection])
      | (False, w') \<Rightarrow> (w', out @ [ClosingConnection]))"

definition main :: "'w env \<Rightarrow> string \<Rightarrow> 'w \<Rightarrow> 'w outcome" where
  "main E stdout_bytes w =
     (case main_try E stdout_bytes w of
        Done w1 out \<Rightarrow> (case finally_cleanup E w1 out of (w2, out2) \<Rightarrow> Done w2 out2)
      | Raised e w1 out \<Rightarrow> (case finally_cleanup E w1 out of (w2, out2) \<Rightarrow> Raised e w2 out2))"

subsection \<open>A small file system to run the script on\<close>

text \<open>
  An instance of the environment: a list of paths with what is stored there. A DICOM
  file carries the outcome of reading its two time fields.
\<close>

datatype node = Folder | RawData | DicomData "exn + datetime" "exn + pyfloat"

type_synonym fsys = "(path \<times> node) list"

definition fs_scandir :: "fsys \<Rightarrow> path \<Rightarrow> (string \<times> bool) list" where
  "fs_scandir w d =
     map (\<lambda>e. (basename (fst e), snd e = Folder)) (filter (\<lambda>e. fst (path_split (fst e)) = d) w)"

definition fs_read_acq :: "fsys \<Rightarrow> path \<Rightarrow> exn + datetime" where
  "fs_read_acq w p =
     (case map_of w p of
        Some (DicomData a c) \<Rightarrow> a
      | Some Folder \<Rightarrow> Inl IsADirectoryError
      | Some RawData \<Rightarrow> Inl ValueError
      | None \<Rightarrow> Inl FileNotFoundError)"

definition fs_read_content :: "fsys \<Rightarrow> path \<Rightarrow> exn + pyfloat" where
  "fs_read_content w p =
     (case map_of w p of
        Some (DicomData a c) \<Rightarrow> c
      | Some Folder \<Rightarrow> Inl IsADirectoryError
      | Some RawData \<Rightarrow> Inl ValueError
      | None \<Rightarrow> Inl FileNotFoundError)"

text \<open>\<open>rename(2)\<close>: an existing file at the destination is replaced silently.\<close>

definition fs_rename :: "fsys \<Rightarrow> path \<Rightarrow> path \<Rightarrow> exn option \<times> fsys" where
  "fs_rename w src dst =
     (case map_of w src of
        None \<Rightarrow> (Some FileNotFoundError, w)
      | Some n \<Rightarrow>
          if src = dst then (None, w)
          else if map_of w dst = Some Folder then (Some IsADirectoryError, w)
          else (None, map (\<lambda>e. if fst e = src then (dst, snd e) else e)
                        (filter (\<lambda>e. fst e \<noteq> dst) w)))"

text \<open>\<open>shutil.move\<close> into a directory refuses to replace an entry of the same name.\<close>

definition fs_move :: "fsys \<Rightarrow> path \<Rightarrow> path \<Rightarrow> exn option \<times> fsys" where
  "fs_move w src dst =
     (if map_of w (rstrip_slash dst) = Some Folder
      then (let real_dst = path_join dst (basename (rstrip_slash src))
            in if map_of w real_dst \<noteq> None then (Some ShutilError, w)
               else fs_rename w src real_dst)
      else fs_rename w src dst)"

definition fs_walk :: "fsys \<Rightarrow> path \<Rightarrow> (path \<times> string list) list" where
  "fs_walk w top_dir =
     map (\<lambda>d. (d, map fst (filter snd (fs_scandir w d))))
       (top_dir # map fst (filter (\<lambda>e. snd e = Folder \<and> strip_prefix (top_dir @ ''/'') (fst e) \<noteq> None) w))"

definition fs_cleanup :: "fsys \<Rightarrow> bool \<times> fsys" where
  "fs_cleanup w =
     (map_of w TEMP_DOWNLOAD_DIR \<noteq> None,
      filter (\<lambda>e. fst e \<noteq> TEMP_DOWNLOAD_DIR
                   \<and> strip_prefix (TEMP_DOWNLOAD_DIR @ ''/'') (fst e) = None) w)"

text \<open>
  The digits that this instance knows beyond ASCII are the Arabic-Indic ones, U+0660 to
  U+0669, encoded as the bytes \<open>D9 A0\<close> to \<open>D9 A9\<close>; the names of the example
  worlds hold no other character beyond ASCII, and no pattern character, so that the
  instance has no directory to find for a pattern. The download is taken as done: the
  exam folder is already in the file system.
\<close>

definition arabic_indic :: "string \<Rightarrow> int option" where
  "arabic_indic c =
     (case c of
        [a, b] \<Rightarrow>
          if a = CHR 0xD9 \<and> 160 \<le> (of_char b :: int) \<and> (of_char b :: int) \<le> 169
          then Some (of_char b - 160) else None
      | _ \<Rightarrow> None)"

definition fs_env :: "fsys env" where
  "fs_env =
     \<lparr> scandir = fs_scandir,
       iglob_dirs = (\<lambda>w pat. []),
       unicode_decimal = arabic_indic,
       read_AcquisitionDateTime = fs_read_acq,
       read_ContentTime = fs_read_content,
       shutil_move = fs_move,
       os_rename = fs_rename,
       os_walk = fs_walk,
       download = (\<lambda>w remote. (None, w)),
       cleanup = fs_cleanup \<rparr>"

subsection \<open>The patterns, declaratively\<close>

text \<open>
  What the two regular expressions say, independently of how a match is searched. For
  an ASCII string, \<open>stamp_at pre post s i d t\<close> holds when \<open>pre\<close>, eight digits
  \<open>d\<close>, an underscore, six digits \<open>t\<close> and \<open>post\<close> occur in \<open>s\<close> starting at
  position \<open>i\<close>.
\<close>

definition stamp_at :: "string \<Rightarrow> string \<Rightarrow> string \<Rightarrow> nat \<Rightarrow> string \<Rightarrow> string \<Rightarrow> bool" where
  "stamp_at pre post s i d t =
     (\<exists>a b. s = a @ pre @ d @ ''_'' @ t @ post @ b \<and> length a = i
            \<and> length d = 8 \<and> length t = 6 \<and> all_digits d \<and> all_digits t)"

definition contains_stamp :: "string \<Rightarrow> string \<Rightarrow> string \<Rightarrow> bool" where
  "contains_stamp pre post s = (\<exists>i d t. stamp_at pre post s i d t)"

text \<open>
  For a file name, a digit is any decimal digit: \<open>digit_enc dec c x\<close> holds when the
  bytes \<open>c\<close> are one character, the digit \<open>x\<close>; \<open>digit_run dec n d\<close> when the
  bytes \<open>d\<close> are \<open>n\<close> decimal digits. \<open>h5_stamp_at dec s i d t\<close> holds when an
  underscore, eight decimal digits \<open>d\<close>, an underscore, six decimal digits \<open>t\<close> and
  \<open>.h5\<close> occur in \<open>s\<close> starting at byte \<open>i\<close>.
\<close>

definition digit_enc :: "(string \<Rightarrow> int option) \<Rightarrow> string \<Rightarrow> digit \<Rightarrow> bool" where
  "digit_enc dec c x =
     ((\<exists>a. c = [a] \<and> is_digit a \<and> x = (True, digit_val a))
      \<or> (\<exists>a cs v. c = a # cs \<and> \<not> is_digit a \<and> 2 \<le> utf8_len a \<and> length c = utf8_len a
                  \<and> dec c = Some v \<and> x = (False, v)))"

definition digits_enc :: "(string \<Rightarrow> int option) \<Rightarrow> string \<Rightarrow> digit list \<Rightarrow> bool" where
  "digits_enc dec d xs = (\<exists>cs. d = concat cs \<and> list_all2 (digit_enc dec) cs xs)"

definition digit_run :: "(string \<Rightarrow> int option) \<Rightarrow> nat \<Rightarrow> string \<Rightarrow> bool" where
  "digit_run dec n d = (\<exists>xs. length xs = n \<and> digits_enc dec d xs)"

definition h5_stamp_at :: "(string \<Rightarrow> int option) \<Rightarrow> string \<Rightarrow> nat \<Rightarrow> string \<Rightarrow> string \<Rightarrow> bool" where
  "h5_stamp_at dec s i d t =
     (\<exists>a b. s = a @ ''_'' @ d @ ''_'' @ t @ ''.h5'' @ b \<and> length a = i
            \<and> digit_run dec 8 d \<and> digit_run dec 6 t)"

definition contains_h5_stamp :: "(string \<Rightarrow> int option) \<Rightarrow> string \<Rightarrow> bool" where
  "contains_h5_stamp dec s = (\<exists>i d t. h5_stamp_at dec s i d t)"

text \<open>
  The pattern of the specification for raw files, \<open>_\d{8}_\d{6}\.<ext>$\<close>, with the
  digits \<open>0\<close>..\<open>9\<close>: the name ends with an underscore, eight digits, an underscore,
  six digits and the extension.
\<close>

definition spec_matches_anchored :: "string \<Rightarrow> string \<Rightarrow> bool" where
  "spec_matches_anchored ext name =
     (let k = 16 + length ext
      in k \<le> length name \<and>
         (let suf = drop (length name - k) name
          in take 1 suf = ''_'' \<and> all_digits (take 8 (drop 1 suf))
             \<and> take 1 (drop 9 suf) = ''_'' \<and> all_digits (take 6 (drop 10 suf))
             \<and> drop 16 suf = ext))"

text \<open>What \<open>parse_rrdf_timestamps\<close> computes from one path, when it computes a timestamp.\<close>

definition parse_name :: "(string \<Rightarrow> int option) \<Rightarrow> path \<Rightarrow> datetime option" where
  "parse_name dec p =
     (case search_h5 dec (basename p) of
        None \<Rightarrow> None
      | Some (d, t) \<Rightarrow> (case strptime_compact dec d t of Inl e \<Rightarrow> None | Inr ts \<Rightarrow> Some ts))"






subsection \<open>Example worlds\<close>

text \<open>An acquisition folder with three DICOM files.\<close>

definition w_three :: fsys where
  "w_three =
     [(''s'', Folder), (''s/calipr_a'', Folder),
      (''s/calipr_a/x.dcm'', DicomData (Inr 0) (Inr (Finite 1))),
      (''s/calipr_a/y.dcm'', DicomData (Inr 0) (Inr (Finite 2))),
      (''s/calipr_a/z.dcm'', DicomData (Inr 0) (Inr (Finite 3)))]"

text \<open>
  A CALIPR folder with two files, content times \<open>143022.5\<close> and \<open>143015.0\<close>, listed
  later file first, and the same folder after the first and after the second rename.
\<close>

definition w_pair :: fsys where
  "w_pair =
     [(''s'', Folder), (''s/calipr_a'', Folder),
      (''s/calipr_a/x.dcm'', DicomData (Inr 0) (Inr (Finite (286045 / 2)))),
      (''s/calipr_a/y.dcm'', DicomData (Inr 0) (Inr (Finite 143015)))]"

definition w_pair_mid :: fsys where
  "w_pair_mid =
     [(''s'', Folder), (''s/calipr_a'', Folder),
      (''s/calipr_a/x.dcm'', DicomData (Inr 0) (Inr (Finite (286045 / 2)))),
      (''s/calipr_a/calipr_a_protonDensity.dcm'', DicomData (Inr 0) (Inr (Finite 143015)))]"

definition w_pair_done :: fsys where
  "w_pair_done =
     [(''s'', Folder), (''s/calipr_a'', Folder),
      (''s/calipr_a/calipr_a_T2map.dcm'', DicomData (Inr 0) (Inr (Finite (286045 / 2)))),
      (''s/calipr_a/calipr_a_protonDensity.dcm'', DicomData (Inr 0) (Inr (Finite 143015)))]"

text \<open>Two files, the second without a readable \<open>ContentTime\<close>.\<close>

definition w_unreadable :: fsys where
  "w_unreadable =
     [(''s'', Folder), (''s/calipr_a'', Folder),
      (''s/calipr_a/x.dcm'', DicomData (Inr 0) (Inr (Finite 1))),
      (''s/calipr_a/y.dcm'', DicomData (Inr 0) (Inl AttributeError))]"

text \<open>
  A download folder with a well-named raw file, a file without a timestamp and a file
  whose name carries the timestamp before a doubled extension.
\<close>

definition w_h5 :: fsys where
  "w_h5 =
     [(''d'', Folder),
      (''d/scan_20240115_143022.h5'', RawData),
      (''d/notes.h5'', RawData),
      (''d/a_20240115_143022.h5.h5'', RawData)]"

text \<open>
  A download folder with a raw file whose name carries the year 2024 in Arabic-Indic
  digits, and one with a raw file whose name carries the month 01 in these digits.
\<close>

definition w_h5_arabic :: fsys where
  "w_h5_arabic =
     [(''d'', Folder),
      (''d/s_'' @ [CHR 0xD9, CHR 0xA2, CHR 0xD9, CHR 0xA0, CHR 0xD9, CHR 0xA2, CHR 0xD9, CHR 0xA4]
         @ ''0115_143022.h5'', RawData),
      (''d/notes.h5'', RawData)]"

definition w_h5_arabic_month :: fsys where
  "w_h5_arabic_month =
     [(''d'', Folder),
      (''d/s_2024'' @ [CHR 0xD9, CHR 0xA0, CHR 0xD9, CHR 0xA1] @ ''15_143022.h5'', RawData)]"

text \<open>
  An exam whose download holds a raw file two seconds from the acquisition and a raw
  file named with month 13, and what is left of it after the clean-up.
\<close>

definition w_badmonth :: fsys where
  "w_badmonth =
     [(''/var/lib/orthanc/export'', Folder),
      (''/var/lib/orthanc/export/2024-06-01_09_00_00'', Folder),
      (''/var/lib/orthanc/export/2024-06-01_09_00_00/acq1'', Folder),
      (''/var/lib/orthanc/export/2024-06-01_09_00_00/acq1/a.dcm'',
         DicomData (Inr (mk_datetime 2024 6 1 9 0 32 0)) (Inr (Finite 90032))),
      (''/tmp/rrdf_download'', Folder),
      (''/tmp/rrdf_download/rrdf_20240601_090000'', Folder),
      (''/tmp/rrdf_download/rrdf_20240601_090000/scan_20240601_090030.h5'', RawData),
      (''/tmp/rrdf_download/rrdf_20240601_090000/scan_20241301_143022.h5'', RawData)]"

definition w_badmonth_after :: fsys where
  "w_badmonth_after =
     [(''/var/lib/orthanc/export'', Folder),
      (''/var/lib/orthanc/export/2024-06-01_09_00_00'', Folder),
      (''/var/lib/orthanc/export/2024-06-01_09_00_00/acq1'', Folder),
      (''/var/lib/orthanc/export/2024-06-01_09_00_00/acq1/a.dcm'',
         DicomData (Inr (mk_datetime 2024 6 1 9 0 32 0)) (Inr (Finite 90032)))]"

definition listing_20240601 :: string where
  "listing_20240601 =
     ''drwxr-xr-x 2 rrdf rrdf 4096 2024-06-01 09:10:00.000000000 +0000 rrdf_20240601_090000''"

text \<open>
  A session with two acquisition folders, at 09:00:32 and at 09:30:00, and a download
  with three raw files: two within ten seconds of the first acquisition, one hours away.
  \<open>acq_demo\<close> and \<open>rrdf_demo\<close> are the two indices of this world, and
  \<open>w_reloc_x\<close> is the world after the first raw file has been relocated.
\<close>

definition w_reloc :: fsys where
  "w_reloc =
     [(''s'', Folder),
      (''s/acq1'', Folder),
      (''s/acq1/a.dcm'', DicomData (Inr (mk_datetime 2024 6 1 9 0 32 0)) (Inr (Finite 90032))),
      (''s/acq2'', Folder),
      (''s/acq2/b.dcm'', DicomData (Inr (mk_datetime 2024 6 1 9 30 0 0)) (Inr (Finite 93000))),
      (''d'', Folder),
      (''d/x_20240601_090030.h5'', RawData),
      (''d/y_20240601_090040.h5'', RawData),
      (''d/z_20240601_120000.h5'', RawData)]"




definition w_reloc_x :: fsys where
  "w_reloc_x =
     [(''s'', Folder),
      (''s/acq1'', Folder),
      (''s/acq1/a.dcm'', DicomData (Inr (mk_datetime 2024 6 1 9 0 32 0)) (Inr (Finite 90032))),
      (''s/acq2'', Folder),
      (''s/acq2/b.dcm'', DicomData (Inr (mk_datetime 2024 6 1 9 30 0 0)) (Inr (Finite 93000))),
      (''d'', Folder),
      (''s/acq1/acq1.h5'', RawData),
      (''d/y_20240601_090040.h5'', RawData),
      (''d/z_20240601_120000.h5'', RawData)]"

text \<open>The same world after the whole relocation run.\<close>

definition w_reloc_final :: fsys where
  "w_reloc_final =
     [(''s'', Folder),
      (''s/acq1'', Folder),
      (''s/acq1/a.dcm'', DicomData (Inr (mk_datetime 2024 6 1 9 0 32 0)) (Inr (Finite 90032))),
      (''s/acq2'', Folder),
      (''s/acq2/b.dcm'', DicomData (Inr (mk_datetime 2024 6 1 9 30 0 0)) (Inr (Finite 93000))),
      (''d'', Folder),
      (''s/acq1/acq1.h5'', RawData),
      (''d/z_20240601_120000.h5'', RawData)]"




text \<open>
  The end-to-end scenario of the specification: exam \<open>rrdf_20240601_090000\<close> with
  one raw file stamped 09:00:30, and the session \<open>2024-06-01_09_00_00\<close> with the
  acquisition folder \<open>calipr_series\<close> at 09:00:32 holding two DICOM files with
  content times \<open>090033.8\<close> and \<open>090031.2\<close>; then the world after the run.
\<close>

definition w_scenario :: fsys where
  "w_scenario =
     [(''/var/lib/orthanc/export'', Folder),
      (''/var/lib/orthanc/export/2024-06-01_09_00_00'', Folder),
      (''/var/lib/orthanc/export/2024-06-01_09_00_00/calipr_series'', Folder),
      (''/var/lib/orthanc/export/2024-06-01_09_00_00/calipr_series/a.dcm'',
         DicomData (Inr (mk_datetime 2024 6 1 9 0 32 0)) (Inr (Finite (450169 / 5)))),
      (''/var/lib/orthanc/export/2024-06-01_09_00_00/calipr_series/b.dcm'',
         DicomData (Inr (mk_datetime 2024 6 1 9 0 32 0)) (Inr (Finite (450156 / 5)))),
      (''/tmp/rrdf_download'', Folder),
      (''/tmp/rrdf_download/rrdf_20240601_090000'', Folder),
      (''/tmp/rrdf_download/rrdf_20240601_090000/scan_20240601_090030.h5'', RawData)]"

definition w_scenario_after :: fsys where
  "w_scenario_after =
     [(''/var/lib/orthanc/export'', Folder),
      (''/var/lib/orthanc/export/2024-06-01_09_00_00'', Folder),
      (''/var/lib/orthanc/export/2024-06-01_09_00_00/calipr_series'', Folder),
      (''/var/lib/orthanc/export/2024-06-01_09_00_00/calipr_series/calipr_series_T2map.dcm'',
         DicomData (Inr (mk_datetime 2024 6 1 9 0 32 0)) (Inr (Finite (450169 / 5)))),
      (''/var/lib/orthanc/export/2024-06-01_09_00_00/calipr_series/calipr_series_protonDensity.dcm'',
         DicomData (Inr (mk_datetime 2024 6 1 9 0 32 0)) (Inr (Finite (450156 / 5)))),
      (''/var/lib/orthanc/export/2024-06-01_09_00_00/calipr_series/calipr_series.h5'', RawData)]"






section \<open>Properties\<close>

subsection \<open>Paths\<close>

lemma basename_no_slash: "slash \<notin> set (basename p)"
  unfolding basename_def using set_takeWhileD by fastforce

lemma takeWhile_no_slash:
  "slash \<notin> set b \<Longrightarrow>
   takeWhile (\<lambda>c. c \<noteq> slash) (rev b @ xs) = rev b @ takeWhile (\<lambda>c. c \<noteq> slash) xs"
  by (rule takeWhile_append2) auto

lemma basename_path_join:
  assumes nb: "slash \<notin> set b"
  shows "basename (path_join a b) = b"
proof -
  note tw = takeWhile_no_slash[OF nb]
  have hdb: "\<not> (b \<noteq> [] \<and> hd b = slash)" using nb by (cases b) auto
  have "takeWhile (\<lambda>c. c \<noteq> slash) (rev b) = rev b"
    using nb by auto
  then have b0: "basename b = b" by (simp only: basename_def rev_rev_ident)
  show ?thesis
  proof (cases "a = [] \<or> last a = slash")
    case True
    then have pj: "path_join a b = a @ b" using hdb by (auto simp: path_join_def)
    show ?thesis
    proof (cases "a = []")
      case True
      then show ?thesis using pj b0 by simp
    next
      case False
      with True have "a = butlast a @ [slash]"
        by (metis append_butlast_last_id)
      then obtain a' where a': "a = a' @ [slash]" ..
      have "takeWhile (\<lambda>c. c \<noteq> slash) (rev b @ slash # rev a') = rev b"
        using tw[of "slash # rev a'"] by simp
      then show ?thesis unfolding pj by (simp add: a' basename_def)
    qed
  next
    case False
    then have pj: "path_join a b = a @ slash # b" using hdb by (auto simp: path_join_def)
    show ?thesis unfolding pj basename_def using tw[of "slash # rev a"] by simp
  qed
qed

lemma basename_join_suffix:
  "slash \<notin> set sfx \<Longrightarrow>
   basename (path_join folder (basename p @ sfx)) = basename p @ sfx"
  by (rule basename_path_join) (simp add: basename_no_slash)

subsection \<open>The CALIPR step\<close>

lemma sort_by_time_two:
  "sort_by_time [(f0, t0), (f1, t1)] =
     (if float_lt t1 t0 then [(f1, t1), (f0, t0)] else [(f0, t0), (f1, t1)])"
  by (simp add: sort_by_time_def)

text \<open>
  C5. In a folder with exactly two candidate files whose content times can be read, the
  two are ordered by content time (the second listed file comes first exactly when its
  time is smaller); the earlier one is renamed to \<open><folder-basename>_protonDensity.dcm\<close>
  and then the later one to \<open><folder-basename>_T2map.dcm\<close>, both inside the folder.
\<close>

theorem calipr_two_files_sorted_and_renamed:
  assumes "glob_files E w folder ''.dcm'' = [f0, f1]"
    and "read_ContentTime E w f0 = Inr t0"
    and "read_ContentTime E w f1 = Inr t1"
    and "base = basename (normpath folder)"
    and "earlier = (if float_lt t1 t0 then f1 else f0)"
    and "later = (if float_lt t1 t0 then f0 else f1)"
    and "os_rename E w earlier (path_join folder (base @ ''_protonDensity.dcm'')) = (None, w1)"
    and "os_rename E w1 later (path_join folder (base @ ''_T2map.dcm'')) = (None, w2)"
  shows "rename_calipr_dicom_files E folder w out =
           Done w2 (out @ [CaliprStart base, CaliprRenamingPD (base @ ''_protonDensity.dcm''),
                           CaliprRenamingT2 (base @ ''_T2map.dcm'')])
         \<and> basename (path_join folder (base @ ''_protonDensity.dcm'')) = base @ ''_protonDensity.dcm''
         \<and> basename (path_join folder (base @ ''_T2map.dcm'')) = base @ ''_T2map.dcm''"
proof -
  have b1: "basename (path_join folder (base @ ''_protonDensity.dcm'')) = base @ ''_protonDensity.dcm''"
    unfolding assms(4) by (rule basename_join_suffix) (simp add: slash_def)
  have b2: "basename (path_join folder (base @ ''_T2map.dcm'')) = base @ ''_T2map.dcm''"
    unfolding assms(4) by (rule basename_join_suffix) (simp add: slash_def)
  have "rename_calipr_dicom_files E folder w out =
           Done w2 (out @ [CaliprStart base, CaliprRenamingPD (base @ ''_protonDensity.dcm''),
                           CaliprRenamingT2 (base @ ''_T2map.dcm'')])"
    using assms b1 b2
    by (cases "float_lt t1 t0")
       (simp_all add: rename_calipr_dicom_files_def Let_def sort_by_time_two)
  with b1 b2 show ?thesis by simp
qed

theorem calipr_two_files_sorted_and_renamed_witness:
  "glob_files fs_env w_pair ''s/calipr_a/'' ''.dcm'' = [''s/calipr_a/x.dcm'', ''s/calipr_a/y.dcm'']
   \<and> read_ContentTime fs_env w_pair ''s/calipr_a/x.dcm'' = Inr (Finite (286045 / 2))
   \<and> read_ContentTime fs_env w_pair ''s/calipr_a/y.dcm'' = Inr (Finite 143015)
   \<and> float_lt (Finite 143015) (Finite (286045 / 2))
   \<and> os_rename fs_env w_pair ''s/calipr_a/y.dcm'' ''s/calipr_a/calipr_a_protonDensity.dcm''
        = (None, w_pair_mid)
   \<and> os_rename fs_env w_pair_mid ''s/calipr_a/x.dcm'' ''s/calipr_a/calipr_a_T2map.dcm''
        = (None, w_pair_done)
   \<and> rename_calipr_dicom_files fs_env ''s/calipr_a/'' w_pair [] =
        Done w_pair_done [CaliprStart ''calipr_a'', CaliprRenamingPD ''calipr_a_protonDensity.dcm'',
                          CaliprRenamingT2 ''calipr_a_T2map.dcm'']"
proof -
  have g: "glob_files fs_env w_pair ''s/calipr_a/'' ''.dcm'' = [''s/calipr_a/x.dcm'', ''s/calipr_a/y.dcm'']"
    by code_simp
  have r0: "read_ContentTime fs_env w_pair ''s/calipr_a/x.dcm'' = Inr (Finite (286045 / 2))"
    by code_simp
  have r1: "read_ContentTime fs_env w_pair ''s/calipr_a/y.dcm'' = Inr (Finite 143015)"
    by code_simp
  have lt: "float_lt (Finite 143015) (Finite (286045 / 2))" by simp
  have b: "''calipr_a'' = basename (normpath ''s/calipr_a/'')" by code_simp
  have e: "''s/calipr_a/y.dcm'' =
             (if float_lt (Finite 143015) (Finite (286045 / 2)) then ''s/calipr_a/y.dcm''
              else ''s/calipr_a/x.dcm'')"
    using lt by simp
  have l: "''s/calipr_a/x.dcm'' =
             (if float_lt (Finite 143015) (Finite (286045 / 2)) then ''s/calipr_a/x.dcm''
              else ''s/calipr_a/y.dcm'')"
    using lt by simp
  have m1: "os_rename fs_env w_pair ''s/calipr_a/y.dcm''
              (path_join ''s/calipr_a/'' (''calipr_a'' @ ''_protonDensity.dcm'')) = (None, w_pair_mid)"
    by code_simp
  have m2: "os_rename fs_env w_pair_mid ''s/calipr_a/x.dcm''
              (path_join ''s/calipr_a/'' (''calipr_a'' @ ''_T2map.dcm'')) = (None, w_pair_done)"
    by code_simp
  have p1: "path_join ''s/calipr_a/'' (''calipr_a'' @ ''_protonDensity.dcm'')
              = ''s/calipr_a/calipr_a_protonDensity.dcm''"
    by code_simp
  have p2: "path_join ''s/calipr_a/'' (''calipr_a'' @ ''_T2map.dcm'') = ''s/calipr_a/calipr_a_T2map.dcm''"
    by code_simp
  from calipr_two_files_sorted_and_renamed[OF g r0 r1 b e l m1 m2, of "[]"]
  show ?thesis using g r0 r1 lt m1 m2 p1 p2 by simp
qed

text \<open>
  C6. When the number of candidate files is not two, the step ends with a warning: the
  world is unchanged, so every file keeps its name, and the caller goes on (the step
  returns, it does not raise).
\<close>

theorem calipr_wrong_count_skips:
  "length (glob_files E w folder ''.dcm'') \<noteq> 2 \<Longrightarrow>
   rename_calipr_dicom_files E folder w out =
     Done w (out @ [CaliprStart (basename (normpath folder)),
                    CaliprWrongCount (length (glob_files E w folder ''.dcm''))])"
  by (simp add: rename_calipr_dicom_files_def Let_def)

theorem calipr_wrong_count_skips_witness:
  "length (glob_files fs_env w_three ''s/calipr_a/'' ''.dcm'') \<noteq> 2 \<and>
   rename_calipr_dicom_files fs_env ''s/calipr_a/'' w_three [] =
     Done w_three [CaliprStart ''calipr_a'', CaliprWrongCount 3]"
proof -
  have g: "glob_files fs_env w_three ''s/calipr_a/'' ''.dcm'' =
             [''s/calipr_a/x.dcm'', ''s/calipr_a/y.dcm'', ''s/calipr_a/z.dcm'']"
    by code_simp
  have n: "basename (normpath ''s/calipr_a/'') = ''calipr_a''" by code_simp
  have h: "length (glob_files fs_env w_three ''s/calipr_a/'' ''.dcm'') \<noteq> 2" by (simp add: g)
  from calipr_wrong_count_skips[OF h, of "[]"] show ?thesis using g n by simp
qed

text \<open>
  C10. With two candidate files, a failure to read the content time of either one ends
  the step with an error report and the world unchanged: no rename has been issued.
\<close>

theorem calipr_read_failure_renames_nothing:
  assumes "glob_files E w folder ''.dcm'' = [f0, f1]"
    and "read_ContentTime E w f0 = Inl e0 \<or> read_ContentTime E w f1 = Inl e1"
  shows "\<exists>e. rename_calipr_dicom_files E folder w out =
           Done w (out @ [CaliprStart (basename (normpath folder)), CaliprReadError e])"
  using assms by (auto simp: rename_calipr_dicom_files_def Let_def split: sum.splits)

theorem calipr_read_failure_renames_nothing_witness:
  "glob_files fs_env w_unreadable ''s/calipr_a/'' ''.dcm'' = [''s/calipr_a/x.dcm'', ''s/calipr_a/y.dcm'']
   \<and> read_ContentTime fs_env w_unreadable ''s/calipr_a/y.dcm'' = Inl AttributeError
   \<and> (\<exists>e. rename_calipr_dicom_files fs_env ''s/calipr_a/'' w_unreadable [] =
           Done w_unreadable [CaliprStart ''calipr_a'', CaliprReadError e])"
proof -
  have g: "glob_files fs_env w_unreadable ''s/calipr_a/'' ''.dcm'' =
             [''s/calipr_a/x.dcm'', ''s/calipr_a/y.dcm'']"
    by code_simp
  have r: "read_ContentTime fs_env w_unreadable ''s/calipr_a/y.dcm'' = Inl AttributeError"
    by code_simp
  have n: "basename (normpath ''s/calipr_a/'') = ''calipr_a''" by code_simp
  from calipr_read_failure_renames_nothing[where out = "[]", OF g disjI2[OF r]]
  show ?thesis using g r n by simp
qed

subsection \<open>Searching for the patterns\<close>

lemma strip_prefix_Some: "strip_prefix p s = Some r \<longleftrightarrow> s = p @ r"
  by (induction p s rule: strip_prefix.induct) auto

lemma strip_prefix_append: "strip_prefix p (p @ r) = Some r"
  by (simp add: strip_prefix_Some)

lemma match_stamp_iff: "match_stamp pre post s = Some (d, t) \<longleftrightarrow> stamp_at pre post s 0 d t"
proof
  assume m: "match_stamp pre post s = Some (d, t)"
  then obtain r1 where r1: "s = pre @ r1"
    by (auto simp: match_stamp_def strip_prefix_Some split: option.splits)
  from m r1 have d: "d = take 8 r1" "length d = 8" "all_digits d"
    by (auto simp: match_stamp_def strip_prefix_append Let_def split: option.splits if_splits)
  from m r1 d obtain r3 where r3: "drop 8 r1 = ''_'' @ r3"
    by (auto simp: match_stamp_def strip_prefix_append strip_prefix_Some Let_def split: option.splits if_splits)
  from m r1 d r3 have t: "t = take 6 r3" "length t = 6" "all_digits t"
    by (auto simp: match_stamp_def strip_prefix_append Let_def split: option.splits if_splits)
  from m r1 d r3 t obtain r5 where r5: "drop 6 r3 = post @ r5"
    by (auto simp: match_stamp_def strip_prefix_append strip_prefix_Some Let_def split: option.splits if_splits)
  have "r1 = d @ ''_'' @ r3" using d(1) r3 by (metis append_take_drop_id)
  moreover have "r3 = t @ post @ r5" using t(1) r5 by (metis append_take_drop_id)
  ultimately have "s = [] @ pre @ d @ ''_'' @ t @ post @ r5" using r1 by simp
  then show "stamp_at pre post s 0 d t" unfolding stamp_at_def using d t by blast
next
  assume "stamp_at pre post s 0 d t"
  then obtain b where s: "s = pre @ d @ ''_'' @ t @ post @ b"
    and l: "length d = 8" "length t = 6" "all_digits d" "all_digits t"
    by (auto simp: stamp_at_def)
  show "match_stamp pre post s = Some (d, t)"
    unfolding s match_stamp_def using l
    by (simp add: strip_prefix_append Let_def)
qed

lemma stamp_at_Suc: "stamp_at pre post (c # cs) (Suc i) d t \<longleftrightarrow> stamp_at pre post cs i d t"
proof
  assume "stamp_at pre post (c # cs) (Suc i) d t"
  then obtain a b where e: "c # cs = a @ pre @ d @ ''_'' @ t @ post @ b" and la: "length a = Suc i"
    and l: "length d = 8" "length t = 6" "all_digits d" "all_digits t"
    by (auto simp: stamp_at_def)
  from la obtain a' where a': "a = c # a'" "length a' = i" using e by (cases a) auto
  with e have "cs = a' @ pre @ d @ ''_'' @ t @ post @ b" by simp
  then show "stamp_at pre post cs i d t" unfolding stamp_at_def using a' l by blast
next
  assume "stamp_at pre post cs i d t"
  then obtain a b where e: "cs = a @ pre @ d @ ''_'' @ t @ post @ b" and la: "length a = i"
    and l: "length d = 8" "length t = 6" "all_digits d" "all_digits t"
    by (auto simp: stamp_at_def)
  then have "c # cs = (c # a) @ pre @ d @ ''_'' @ t @ post @ b" "length (c # a) = Suc i" by simp_all
  then show "stamp_at pre post (c # cs) (Suc i) d t" unfolding stamp_at_def using l by blast
qed

lemma stamp_at_Nil: "stamp_at pre post [] i d t \<Longrightarrow> i = 0"
  by (auto simp: stamp_at_def)

lemma re_search_None: "re_search pre post s = None \<longleftrightarrow> \<not> contains_stamp pre post s"
proof (induction s)
  case Nil
  show ?case
  proof
    assume "re_search pre post [] = None"
    then have "\<And>d t. \<not> stamp_at pre post [] 0 d t" by (simp add: match_stamp_iff[symmetric])
    then show "\<not> contains_stamp pre post []" unfolding contains_stamp_def using stamp_at_Nil by blast
  next
    assume "\<not> contains_stamp pre post []"
    then have "\<And>d t. match_stamp pre post [] \<noteq> Some (d, t)"
      unfolding contains_stamp_def match_stamp_iff by blast
    then show "re_search pre post [] = None" by (cases "match_stamp pre post []") auto
  qed
next
  case (Cons c cs)
  show ?case
  proof
    assume n: "re_search pre post (c # cs) = None"
    then have m: "match_stamp pre post (c # cs) = None" and r: "re_search pre post cs = None"
      by (auto split: option.splits)
    show "\<not> contains_stamp pre post (c # cs)"
    proof
      assume "contains_stamp pre post (c # cs)"
      then obtain i d t where st: "stamp_at pre post (c # cs) i d t" unfolding contains_stamp_def by blast
      show False
      proof (cases i)
        case 0
        with st m show False by (simp add: match_stamp_iff[symmetric])
      next
        case (Suc j)
        with st have "stamp_at pre post cs j d t" by (simp add: stamp_at_Suc)
        then have "contains_stamp pre post cs" unfolding contains_stamp_def by blast
        with r Cons.IH show False by simp
      qed
    qed
  next
    assume nc: "\<not> contains_stamp pre post (c # cs)"
    then have "\<And>d t. match_stamp pre post (c # cs) \<noteq> Some (d, t)"
      unfolding contains_stamp_def match_stamp_iff by blast
    then have m: "match_stamp pre post (c # cs) = None" by (cases "match_stamp pre post (c # cs)") auto
    have "\<not> contains_stamp pre post cs"
      using nc unfolding contains_stamp_def by (metis stamp_at_Suc)
    with Cons.IH m show "re_search pre post (c # cs) = None" by simp
  qed
qed

lemma re_search_contains: "re_search pre post s \<noteq> None \<Longrightarrow> contains_stamp pre post s"
  by (simp add: re_search_None)

lemma re_search_lacks: "re_search pre post s = None \<Longrightarrow> \<not> contains_stamp pre post s"
  by (simp add: re_search_None)

lemma re_search_Some:
  "re_search pre post s = Some (d, t) \<Longrightarrow>
   \<exists>i. stamp_at pre post s i d t \<and> (\<forall>j d' t'. stamp_at pre post s j d' t' \<longrightarrow> i \<le> j)"
proof (induction s)
  case Nil
  then have "stamp_at pre post [] 0 d t" by (simp add: match_stamp_iff)
  then show ?case by blast
next
  case (Cons c cs)
  show ?case
  proof (cases "match_stamp pre post (c # cs)")
    case (Some g)
    with Cons.prems have "match_stamp pre post (c # cs) = Some (d, t)" by simp
    then have "stamp_at pre post (c # cs) 0 d t" by (simp add: match_stamp_iff)
    then show ?thesis by blast
  next
    case None
    with Cons.prems have "re_search pre post cs = Some (d, t)" by simp
    from Cons.IH[OF this] obtain i where i: "stamp_at pre post cs i d t"
      and least: "\<forall>j d' t'. stamp_at pre post cs j d' t' \<longrightarrow> i \<le> j" by blast
    have "stamp_at pre post (c # cs) (Suc i) d t" using i by (simp add: stamp_at_Suc)
    moreover have "Suc i \<le> j" if st: "stamp_at pre post (c # cs) j d' t'" for j d' t'
    proof (cases j)
      case 0
      with st None show ?thesis by (simp add: match_stamp_iff[symmetric])
    next
      case (Suc j')
      with st have "stamp_at pre post cs j' d' t'" by (simp add: stamp_at_Suc)
      with least Suc show ?thesis by auto
    qed
    ultimately show ?thesis by blast
  qed
qed


lemma stamp_at_unique:
  assumes "stamp_at pre post s i d t" "stamp_at pre post s i d' t'"
  shows "d = d' \<and> t = t'"
proof -
  from assms(1) obtain a b where e: "s = a @ pre @ d @ ''_'' @ t @ post @ b" and la: "length a = i"
    and l: "length d = 8" "length t = 6" by (auto simp: stamp_at_def)
  from assms(2) obtain a' b' where e': "s = a' @ pre @ d' @ ''_'' @ t' @ post @ b'" and la': "length a' = i"
    and l': "length d' = 8" "length t' = 6" by (auto simp: stamp_at_def)
  from e e' la la' have "pre @ d @ ''_'' @ t @ post @ b = pre @ d' @ ''_'' @ t' @ post @ b'" by simp
  then have "d @ ''_'' @ t @ post @ b = d' @ ''_'' @ t' @ post @ b'" by simp
  with l l' have dd: "d = d'" and "''_'' @ t @ post @ b = ''_'' @ t' @ post @ b'" by auto
  then have "t @ post @ b = t' @ post @ b'" by simp
  with l l' have "t = t'" by auto
  with dd show ?thesis by simp
qed

lemma re_search_leftmost:
  assumes st: "stamp_at pre post s i d t"
    and least: "\<forall>j d' t'. stamp_at pre post s j d' t' \<longrightarrow> i \<le> j"
  shows "re_search pre post s = Some (d, t)"
proof -
  have "contains_stamp pre post s" using st unfolding contains_stamp_def by blast
  then obtain d0 t0 where r: "re_search pre post s = Some (d0, t0)"
    using re_search_None[of pre post s] by (cases "re_search pre post s") auto
  from re_search_Some[OF r] obtain i0 where i0: "stamp_at pre post s i0 d0 t0"
    and least0: "\<forall>j d' t'. stamp_at pre post s j d' t' \<longrightarrow> i0 \<le> j" by blast
  have "i = i0" using st i0 least least0 by (meson le_antisym)
  with st i0 stamp_at_unique have "d = d0 \<and> t = t0" by blast
  with r show ?thesis by simp
qed

subsection \<open>Searching a file name\<close>

lemma digit_at_iff: "digit_at dec s = Some (c, x, r) \<longleftrightarrow> s = c @ r \<and> digit_enc dec c x"
proof
  assume a: "digit_at dec s = Some (c, x, r)"
  then obtain a0 cs where s: "s = a0 # cs" by (cases s) (auto simp: digit_at_def)
  show "s = c @ r \<and> digit_enc dec c x"
  proof (cases "is_digit a0")
    case True
    with a s show ?thesis by (auto simp: digit_at_def digit_enc_def)
  next
    case False
    with a s have n: "2 \<le> utf8_len a0" "utf8_len a0 \<le> length s"
      by (auto simp: digit_at_def split: if_splits)
    with a s False obtain v where v: "dec (take (utf8_len a0) s) = Some v"
      and c: "c = take (utf8_len a0) s" and x: "x = (False, v)" and r: "r = drop (utf8_len a0) s"
      by (auto simp: digit_at_def split: option.splits)
    from n s obtain k where k: "utf8_len a0 = Suc k" by (cases "utf8_len a0") auto
    have c2: "c = a0 # take k cs" using c s k by simp
    have "length c = utf8_len a0" using c n by simp
    with v c x False n(1) c2 have "digit_enc dec c x" unfolding digit_enc_def by blast
    moreover have "s = c @ r" using c r by simp
    ultimately show ?thesis by simp
  qed
next
  assume "s = c @ r \<and> digit_enc dec c x"
  then have s: "s = c @ r" and e: "digit_enc dec c x" by simp_all
  from e show "digit_at dec s = Some (c, x, r)"
    unfolding digit_enc_def
  proof (elim disjE exE conjE)
    fix a assume "c = [a]" "is_digit a" "x = (True, digit_val a)"
    then show ?thesis using s by (simp add: digit_at_def)
  next
    fix a cs v
    assume c: "c = a # cs" and nd: "\<not> is_digit a" and n: "2 \<le> utf8_len a"
      and l: "length c = utf8_len a" and v: "dec c = Some v" and x: "x = (False, v)"
    have t: "take (utf8_len a) s = c" "drop (utf8_len a) s = r" using s l by simp_all
    have "utf8_len a \<le> length s" using s l by simp
    then show ?thesis using c nd n v x t s by (simp add: digit_at_def)
  qed
qed

lemma digits_enc_Nil: "digits_enc dec d [] \<longleftrightarrow> d = []"
  by (auto simp: digits_enc_def)

lemma digits_enc_Cons:
  "digits_enc dec d (x # xs) \<longleftrightarrow> (\<exists>c d'. d = c @ d' \<and> digit_enc dec c x \<and> digits_enc dec d' xs)"
proof
  assume "digits_enc dec d (x # xs)"
  then obtain cs where d: "d = concat cs" and l: "list_all2 (digit_enc dec) cs (x # xs)"
    by (auto simp: digits_enc_def)
  from l obtain c cs' where cs: "cs = c # cs'" and c: "digit_enc dec c x"
    and l': "list_all2 (digit_enc dec) cs' xs" by (auto simp: list_all2_Cons2)
  have "d = c @ concat cs'" using d cs by simp
  moreover have "digits_enc dec (concat cs') xs" unfolding digits_enc_def using l' by blast
  ultimately show "\<exists>c d'. d = c @ d' \<and> digit_enc dec c x \<and> digits_enc dec d' xs" using c by blast
next
  assume "\<exists>c d'. d = c @ d' \<and> digit_enc dec c x \<and> digits_enc dec d' xs"
  then obtain c d' cs where d: "d = c @ d'" and c: "digit_enc dec c x"
    and d': "d' = concat cs" and l: "list_all2 (digit_enc dec) cs xs"
    by (auto simp: digits_enc_def)
  have "d = concat (c # cs)" using d d' by simp
  moreover have "list_all2 (digit_enc dec) (c # cs) (x # xs)" using c l by simp
  ultimately show "digits_enc dec d (x # xs)" unfolding digits_enc_def by blast
qed

lemma read_digits_iff:
  "read_digits dec n s = Some (d, xs, r) \<longleftrightarrow> s = d @ r \<and> digits_enc dec d xs \<and> length xs = n"
proof (induction n arbitrary: s d xs r)
  case 0
  show ?case by (auto simp: digits_enc_Nil)
next
  case (Suc n)
  show ?case
  proof
    assume a: "read_digits dec (Suc n) s = Some (d, xs, r)"
    then obtain c x r0 where da: "digit_at dec s = Some (c, x, r0)"
      by (auto split: option.splits)
    with a obtain d' xs' where rd: "read_digits dec n r0 = Some (d', xs', r)"
      and d: "d = c @ d'" and xs: "xs = x # xs'"
      by (auto split: option.splits)
    from da have s: "s = c @ r0" and e: "digit_enc dec c x" by (simp_all add: digit_at_iff)
    from rd Suc.IH have i: "r0 = d' @ r" "digits_enc dec d' xs'" "length xs' = n" by simp_all
    from e i(2) have "digits_enc dec d xs" unfolding d xs digits_enc_Cons by blast
    with s i d xs show "s = d @ r \<and> digits_enc dec d xs \<and> length xs = Suc n" by simp
  next
    assume "s = d @ r \<and> digits_enc dec d xs \<and> length xs = Suc n"
    then have s: "s = d @ r" and e: "digits_enc dec d xs" and l: "length xs = Suc n" by simp_all
    from l obtain x xs' where xs: "xs = x # xs'" "length xs' = n" by (cases xs) auto
    from e xs obtain c d' where d: "d = c @ d'" and ec: "digit_enc dec c x"
      and ed: "digits_enc dec d' xs'" by (auto simp: digits_enc_Cons)
    have "s = c @ (d' @ r)" using s d by simp
    with ec have da: "digit_at dec s = Some (c, x, d' @ r)" by (simp add: digit_at_iff)
    have rd: "read_digits dec n (d' @ r) = Some (d', xs', r)" using ed xs(2) by (simp add: Suc.IH)
    show "read_digits dec (Suc n) s = Some (d, xs, r)" using da rd d xs by simp
  qed
qed

lemma read_digits_run: "digit_run dec n d \<Longrightarrow> \<exists>xs. read_digits dec n (d @ r) = Some (d, xs, r)"
  by (auto simp: digit_run_def read_digits_iff)

lemma match_h5_iff: "match_h5 dec s = Some (d, t) \<longleftrightarrow> h5_stamp_at dec s 0 d t"
proof
  assume m: "match_h5 dec s = Some (d, t)"
  then obtain r1 where r1: "s = ''_'' @ r1"
    by (auto simp: match_h5_def strip_prefix_Some split: option.splits)
  from m r1 obtain xs r2 where d: "read_digits dec 8 r1 = Some (d, xs, r2)"
    by (auto simp: match_h5_def strip_prefix_Some split: option.splits)
  from m r1 d obtain r3 where r3: "r2 = ''_'' @ r3"
    by (auto simp: match_h5_def strip_prefix_Some split: option.splits)
  from m r1 d r3 obtain ys r4 where t: "read_digits dec 6 r3 = Some (t, ys, r4)"
    by (auto simp: match_h5_def strip_prefix_Some split: option.splits)
  from m r1 d r3 t obtain r5 where r5: "r4 = ''.h5'' @ r5"
    by (auto simp: match_h5_def strip_prefix_Some split: option.splits)
  from d have d': "r1 = d @ r2" "digit_run dec 8 d" by (auto simp: read_digits_iff digit_run_def)
  from t have t': "r3 = t @ r4" "digit_run dec 6 t" by (auto simp: read_digits_iff digit_run_def)
  have "s = [] @ ''_'' @ d @ ''_'' @ t @ ''.h5'' @ r5" using r1 d'(1) r3 t'(1) r5 by simp
  then show "h5_stamp_at dec s 0 d t" unfolding h5_stamp_at_def using d'(2) t'(2) by blast
next
  assume "h5_stamp_at dec s 0 d t"
  then obtain b where s: "s = ''_'' @ d @ ''_'' @ t @ ''.h5'' @ b"
    and l: "digit_run dec 8 d" "digit_run dec 6 t"
    by (auto simp: h5_stamp_at_def)
  from read_digits_run[OF l(1)] obtain xs where
    1: "read_digits dec 8 (d @ ''_'' @ t @ ''.h5'' @ b) = Some (d, xs, ''_'' @ t @ ''.h5'' @ b)" by blast
  from read_digits_run[OF l(2)] obtain ys where
    2: "read_digits dec 6 (t @ ''.h5'' @ b) = Some (t, ys, ''.h5'' @ b)" by blast
  show "match_h5 dec s = Some (d, t)"
    unfolding s match_h5_def using 1 2 by (simp add: strip_prefix_Some)
qed


lemma h5_stamp_at_Suc: "h5_stamp_at dec (c # cs) (Suc i) d t \<longleftrightarrow> h5_stamp_at dec cs i d t"
proof
  assume "h5_stamp_at dec (c # cs) (Suc i) d t"
  then obtain a b where e: "c # cs = a @ ''_'' @ d @ ''_'' @ t @ ''.h5'' @ b" and la: "length a = Suc i"
    and l: "digit_run dec 8 d" "digit_run dec 6 t"
    by (auto simp: h5_stamp_at_def)
  from la obtain a' where a': "a = c # a'" "length a' = i" using e by (cases a) auto
  with e have "cs = a' @ ''_'' @ d @ ''_'' @ t @ ''.h5'' @ b" by simp
  then show "h5_stamp_at dec cs i d t" unfolding h5_stamp_at_def using a' l by blast
next
  assume "h5_stamp_at dec cs i d t"
  then obtain a b where e: "cs = a @ ''_'' @ d @ ''_'' @ t @ ''.h5'' @ b" and la: "length a = i"
    and l: "digit_run dec 8 d" "digit_run dec 6 t"
    by (auto simp: h5_stamp_at_def)
  then have "c # cs = (c # a) @ ''_'' @ d @ ''_'' @ t @ ''.h5'' @ b" "length (c # a) = Suc i" by simp_all
  then show "h5_stamp_at dec (c # cs) (Suc i) d t" unfolding h5_stamp_at_def using l by blast
qed

lemma h5_stamp_at_Nil: "h5_stamp_at dec [] i d t \<Longrightarrow> i = 0"
  by (auto simp: h5_stamp_at_def)

lemma search_h5_None: "search_h5 dec s = None \<longleftrightarrow> \<not> contains_h5_stamp dec s"
proof (induction s)
  case Nil
  show ?case
  proof
    assume "search_h5 dec [] = None"
    then have "\<And>d t. \<not> h5_stamp_at dec [] 0 d t" by (simp add: match_h5_iff[symmetric])
    then show "\<not> contains_h5_stamp dec []" unfolding contains_h5_stamp_def using h5_stamp_at_Nil by blast
  next
    assume "\<not> contains_h5_stamp dec []"
    then have "\<And>d t. match_h5 dec [] \<noteq> Some (d, t)"
      unfolding contains_h5_stamp_def match_h5_iff by blast
    then show "search_h5 dec [] = None" by (cases "match_h5 dec []") auto
  qed
next
  case (Cons c cs)
  show ?case
  proof
    assume n: "search_h5 dec (c # cs) = None"
    then have m: "match_h5 dec (c # cs) = None" and r: "search_h5 dec cs = None"
      by (auto split: option.splits)
    show "\<not> contains_h5_stamp dec (c # cs)"
    proof
      assume "contains_h5_stamp dec (c # cs)"
      then obtain i d t where st: "h5_stamp_at dec (c # cs) i d t" unfolding contains_h5_stamp_def by blast
      show False
      proof (cases i)
        case 0
        with st m show False by (simp add: match_h5_iff[symmetric])
      next
        case (Suc j)
        with st have "h5_stamp_at dec cs j d t" by (simp add: h5_stamp_at_Suc)
        then have "contains_h5_stamp dec cs" unfolding contains_h5_stamp_def by blast
        with r Cons.IH show False by simp
      qed
    qed
  next
    assume nc: "\<not> contains_h5_stamp dec (c # cs)"
    then have "\<And>d t. match_h5 dec (c # cs) \<noteq> Some (d, t)"
      unfolding contains_h5_stamp_def match_h5_iff by blast
    then have m: "match_h5 dec (c # cs) = None" by (cases "match_h5 dec (c # cs)") auto
    have "\<not> contains_h5_stamp dec cs"
      using nc unfolding contains_h5_stamp_def by (metis h5_stamp_at_Suc)
    with Cons.IH m show "search_h5 dec (c # cs) = None" by simp
  qed
qed

lemma search_h5_contains: "search_h5 dec s \<noteq> None \<Longrightarrow> contains_h5_stamp dec s"
  by (simp add: search_h5_None)

lemma search_h5_lacks: "search_h5 dec s = None \<Longrightarrow> \<not> contains_h5_stamp dec s"
  by (simp add: search_h5_None)

lemma search_h5_Some:
  "search_h5 dec s = Some (d, t) \<Longrightarrow>
   \<exists>i. h5_stamp_at dec s i d t \<and> (\<forall>j d' t'. h5_stamp_at dec s j d' t' \<longrightarrow> i \<le> j)"
proof (induction s)
  case Nil
  then have "h5_stamp_at dec [] 0 d t" by (simp add: match_h5_iff)
  then show ?case by blast
next
  case (Cons c cs)
  show ?case
  proof (cases "match_h5 dec (c # cs)")
    case (Some g)
    with Cons.prems have "match_h5 dec (c # cs) = Some (d, t)" by simp
    then have "h5_stamp_at dec (c # cs) 0 d t" by (simp add: match_h5_iff)
    then show ?thesis by blast
  next
    case None
    with Cons.prems have "search_h5 dec cs = Some (d, t)" by simp
    from Cons.IH[OF this] obtain i where i: "h5_stamp_at dec cs i d t"
      and least: "\<forall>j d' t'. h5_stamp_at dec cs j d' t' \<longrightarrow> i \<le> j" by blast
    have "h5_stamp_at dec (c # cs) (Suc i) d t" using i by (simp add: h5_stamp_at_Suc)
    moreover have "Suc i \<le> j" if st: "h5_stamp_at dec (c # cs) j d' t'" for j d' t'
    proof (cases j)
      case 0
      with st None show ?thesis by (simp add: match_h5_iff[symmetric])
    next
      case (Suc j')
      with st have "h5_stamp_at dec cs j' d' t'" by (simp add: h5_stamp_at_Suc)
      with least Suc show ?thesis by auto
    qed
    ultimately show ?thesis by blast
  qed
qed

lemma h5_stamp_at_unique:
  "h5_stamp_at dec s i d t \<Longrightarrow> h5_stamp_at dec s i d' t' \<Longrightarrow> d = d' \<and> t = t'"
proof (induction s arbitrary: i)
  case Nil
  then have "i = 0" by (auto dest: h5_stamp_at_Nil)
  with Nil show ?case by (simp add: match_h5_iff[symmetric])
next
  case (Cons c cs)
  show ?case
  proof (cases i)
    case 0
    with Cons.prems show ?thesis by (simp add: match_h5_iff[symmetric])
  next
    case (Suc j)
    with Cons.prems have "h5_stamp_at dec cs j d t" "h5_stamp_at dec cs j d' t'"
      by (simp_all add: h5_stamp_at_Suc)
    then show ?thesis by (rule Cons.IH)
  qed
qed

lemma search_h5_leftmost:
  assumes st: "h5_stamp_at dec s i d t"
    and least: "\<forall>j d' t'. h5_stamp_at dec s j d' t' \<longrightarrow> i \<le> j"
  shows "search_h5 dec s = Some (d, t)"
proof -
  have "contains_h5_stamp dec s" using st unfolding contains_h5_stamp_def by blast
  then obtain d0 t0 where r: "search_h5 dec s = Some (d0, t0)"
    using search_h5_None[of dec s] by (cases "search_h5 dec s") auto
  from search_h5_Some[OF r] obtain i0 where i0: "h5_stamp_at dec s i0 d0 t0"
    and least0: "\<forall>j d' t'. h5_stamp_at dec s j d' t' \<longrightarrow> i0 \<le> j" by blast
  have "i = i0" using st i0 least least0 by (meson le_antisym)
  with st i0 h5_stamp_at_unique have "d = d0 \<and> t = t0" by blast
  with r show ?thesis by simp
qed

subsection \<open>The session directory\<close>

lemma session_name_shape:
  assumes "length d = 8" "length t = 6"
  shows "session_name d t =
           [d ! 0, d ! 1, d ! 2, d ! 3, CHR ''-'', d ! 4, d ! 5, CHR ''-'', d ! 6, d ! 7, CHR ''_'',
            t ! 0, t ! 1, CHR ''_'', t ! 2, t ! 3, CHR ''_'', t ! 4, t ! 5]"
proof -
  from assms(1) obtain a0 a1 a2 a3 a4 a5 a6 a7 where d: "d = [a0, a1, a2, a3, a4, a5, a6, a7]"
    by (auto simp: length_Suc_conv eval_nat_numeral)
  from assms(2) obtain b0 b1 b2 b3 b4 b5 where t: "t = [b0, b1, b2, b3, b4, b5]"
    by (auto simp: length_Suc_conv eval_nat_numeral)
  show ?thesis unfolding d t session_name_def by simp
qed

text \<open>
  C8. The canonical session name is a function of the exam-folder name alone. When the
  name contains \<open>rrdf_\<close>, eight digits, an underscore and six digits, the leftmost
  such occurrence gives the tokens \<open>d\<close> and \<open>t\<close>, the name searched for is
  \<open>YYYY-MM-DD_HH_MM_SS\<close> built from their digits, and the result is the first
  directory of that name in the walk, or none with a report. When the name lacks the
  pattern, the function reports a name-format error and returns the failure marker.
\<close>

theorem session_path_resolver:
  "(contains_stamp ''rrdf_'' [] name \<longrightarrow>
      (\<exists>i d t. stamp_at ''rrdf_'' [] name i d t
         \<and> (\<forall>j d' t'. stamp_at ''rrdf_'' [] name j d' t' \<longrightarrow> i \<le> j)
         \<and> session_name d t =
             [d ! 0, d ! 1, d ! 2, d ! 3, CHR ''-'', d ! 4, d ! 5, CHR ''-'', d ! 6, d ! 7, CHR ''_'',
              t ! 0, t ! 1, CHR ''_'', t ! 2, t ! 3, CHR ''_'', t ! 4, t ! 5]
         \<and> find_dicom_session_path E w base name out =
             (case walk_find (os_walk E w base) (session_name d t) of
                Some found \<Rightarrow> (Some found, out @ [Searching (session_name d t), FoundSession found])
              | None \<Rightarrow> (None, out @ [Searching (session_name d t), ErrNoSession (session_name d t)]))))
   \<and> (\<not> contains_stamp ''rrdf_'' [] name \<longrightarrow>
        find_dicom_session_path E w base name out = (None, out @ [ErrParseFolderName name]))"
proof (intro conjI impI)
  assume "contains_stamp ''rrdf_'' [] name"
  then obtain d t where r: "re_search ''rrdf_'' [] name = Some (d, t)"
    using re_search_None[of "''rrdf_''" "[]" name] by (cases "re_search ''rrdf_'' [] name") auto
  from re_search_Some[OF r] obtain i where i: "stamp_at ''rrdf_'' [] name i d t"
    and least: "\<forall>j d' t'. stamp_at ''rrdf_'' [] name j d' t' \<longrightarrow> i \<le> j" by blast
  from i have l: "length d = 8" "length t = 6" by (auto simp: stamp_at_def)
  have f: "find_dicom_session_path E w base name out =
             (case walk_find (os_walk E w base) (session_name d t) of
                Some found \<Rightarrow> (Some found, out @ [Searching (session_name d t), FoundSession found])
              | None \<Rightarrow> (None, out @ [Searching (session_name d t), ErrNoSession (session_name d t)]))"
    using r by (simp add: find_dicom_session_path_def search_rrdf_def Let_def split: option.splits)
  from i least session_name_shape[OF l] f
  show "\<exists>i d t. stamp_at ''rrdf_'' [] name i d t
         \<and> (\<forall>j d' t'. stamp_at ''rrdf_'' [] name j d' t' \<longrightarrow> i \<le> j)
         \<and> session_name d t =
             [d ! 0, d ! 1, d ! 2, d ! 3, CHR ''-'', d ! 4, d ! 5, CHR ''-'', d ! 6, d ! 7, CHR ''_'',
              t ! 0, t ! 1, CHR ''_'', t ! 2, t ! 3, CHR ''_'', t ! 4, t ! 5]
         \<and> find_dicom_session_path E w base name out =
             (case walk_find (os_walk E w base) (session_name d t) of
                Some found \<Rightarrow> (Some found, out @ [Searching (session_name d t), FoundSession found])
              | None \<Rightarrow> (None, out @ [Searching (session_name d t), ErrNoSession (session_name d t)]))"
    by blast
next
  assume "\<not> contains_stamp ''rrdf_'' [] name"
  then have "re_search ''rrdf_'' [] name = None" by (simp add: re_search_None)
  then show "find_dicom_session_path E w base name out = (None, out @ [ErrParseFolderName name])"
    by (simp add: find_dicom_session_path_def search_rrdf_def)
qed

theorem session_path_resolver_witness:
  "contains_stamp ''rrdf_'' [] ''rrdf_20240115_143022''
   \<and> (\<exists>i d t. stamp_at ''rrdf_'' [] ''rrdf_20240115_143022'' i d t
         \<and> (\<forall>j d' t'. stamp_at ''rrdf_'' [] ''rrdf_20240115_143022'' j d' t' \<longrightarrow> i \<le> j)
         \<and> session_name d t =
             [d ! 0, d ! 1, d ! 2, d ! 3, CHR ''-'', d ! 4, d ! 5, CHR ''-'', d ! 6, d ! 7, CHR ''_'',
              t ! 0, t ! 1, CHR ''_'', t ! 2, t ! 3, CHR ''_'', t ! 4, t ! 5]
         \<and> find_dicom_session_path fs_env w_three ''s'' ''rrdf_20240115_143022'' [DownloadComplete] =
             (case walk_find (os_walk fs_env w_three ''s'') (session_name d t) of
                Some found \<Rightarrow>
                  (Some found, [DownloadComplete] @ [Searching (session_name d t), FoundSession found])
              | None \<Rightarrow>
                  (None, [DownloadComplete]
                           @ [Searching (session_name d t), ErrNoSession (session_name d t)])))
   \<and> find_dicom_session_path fs_env w_three ''s'' ''rrdf_20240115_143022'' [DownloadComplete] =
        (None, [DownloadComplete, Searching ''2024-01-15_14_30_22'',
                ErrNoSession ''2024-01-15_14_30_22''])
   \<and> \<not> contains_stamp ''rrdf_'' [] ''exam_folder''
   \<and> find_dicom_session_path fs_env w_three ''s'' ''exam_folder'' [DownloadComplete] =
        (None, [DownloadComplete] @ [ErrParseFolderName ''exam_folder''])"
proof -
  have "re_search ''rrdf_'' [] ''rrdf_20240115_143022'' \<noteq> None" by code_simp
  then have c: "contains_stamp ''rrdf_'' [] ''rrdf_20240115_143022''"
    by (rule re_search_contains)
  have "re_search ''rrdf_'' [] ''exam_folder'' = None" by code_simp
  then have n: "\<not> contains_stamp ''rrdf_'' [] ''exam_folder''"
    by (rule re_search_lacks)
  have v: "find_dicom_session_path fs_env w_three ''s'' ''rrdf_20240115_143022'' [DownloadComplete] =
        (None, [DownloadComplete, Searching ''2024-01-15_14_30_22'',
                ErrNoSession ''2024-01-15_14_30_22''])"
    by code_simp
  note p = mp[OF conjunct1[OF session_path_resolver[of "''rrdf_20240115_143022''" fs_env w_three
                "''s''" "[DownloadComplete]"]] c]
  note q = mp[OF conjunct2[OF session_path_resolver[of "''exam_folder''" fs_env w_three
                "''s''" "[DownloadComplete]"]] n]
  show ?thesis
    apply (intro conjI)
        apply (rule c)
       apply (rule p)
      apply (rule v)
     apply (rule n)
    apply (rule q)
    done
qed

subsection \<open>The raw-file index\<close>

lemma dict_set_keys: "set (map fst (dict_set d k v)) = insert k (set (map fst d))"
proof (induction d)
  case Nil
  show ?case by simp
next
  case (Cons a d)
  obtain k' v' where a: "a = (k', v')" by (cases a)
  show ?case using Cons.IH by (cases "k' = k") (simp_all add: a insert_commute)
qed

lemma dict_set_distinct: "distinct (map fst d) \<Longrightarrow> distinct (map fst (dict_set d k v))"
proof (induction d)
  case Nil
  then show ?case by simp
next
  case (Cons a d)
  obtain k' v' where a: "a = (k', v')" by (cases a)
  show ?case
  proof (cases "k' = k")
    case True
    with Cons.prems a show ?thesis by simp
  next
    case False
    from Cons.prems a have "k' \<notin> set (map fst d)" "distinct (map fst d)" by simp_all
    with Cons.IH False dict_set_keys[of d k v] a show ?thesis by simp
  qed
qed

lemma map_of_dict_set: "map_of (dict_set d k v) = (map_of d)(k \<mapsto> v)"
  by (induction d) (auto simp: fun_eq_iff)

text \<open>
  C3, as the code has it. When the index is built, it holds exactly the files that
  \<open>glob\<close> lists for \<open>*.h5\<close> whose name contains an underscore, eight decimal digits,
  an underscore, six decimal digits and \<open>.h5\<close> somewhere, each with the timestamp
  that \<open>strptime\<close> parses from the tokens of the leftmost occurrence. A name without
  the pattern is left out and never the reason for an exception: when the function
  raises, some listed name contains the pattern and \<open>strptime\<close> raises on the tokens
  of its leftmost occurrence.
\<close>

theorem rrdf_index_unanchored:
  "(parse_rrdf_timestamps E w folder = Inr idx \<longrightarrow>
      (\<forall>p ts. (p, ts) \<in> set idx \<longleftrightarrow>
         p \<in> set (glob_files E w folder ''.h5'') \<and>
         (\<exists>i d t. h5_stamp_at (unicode_decimal E) (basename p) i d t
            \<and> (\<forall>j d' t'. h5_stamp_at (unicode_decimal E) (basename p) j d' t' \<longrightarrow> i \<le> j)
            \<and> strptime_compact (unicode_decimal E) d t = Inr ts)))
   \<and> (parse_rrdf_timestamps E w folder = Inl e \<longrightarrow>
        (\<exists>p \<in> set (glob_files E w folder ''.h5'').
           \<exists>i d t. h5_stamp_at (unicode_decimal E) (basename p) i d t
             \<and> (\<forall>j d' t'. h5_stamp_at (unicode_decimal E) (basename p) j d' t' \<longrightarrow> i \<le> j)
             \<and> strptime_compact (unicode_decimal E) d t = Inl e))"
proof -
  let ?dec = "unicode_decimal E"
  let ?ps = "glob_files E w folder ''.h5''"
  have loop_Inr: "distinct (map fst idx') \<and>
       (\<forall>p. map_of idx' p =
          (if p \<in> set ps \<and> parse_name ?dec p \<noteq> None then parse_name ?dec p else map_of acc p))"
    if "rrdf_times_loop ?dec ps acc = Inr idx'" and "distinct (map fst acc)" for ps acc idx'
    using that
  proof (induction ps arbitrary: acc)
    case Nil
    then show ?case by simp
  next
    case (Cons q ps)
    show ?case
    proof (cases "search_h5 ?dec (basename q)")
      case None
      with Cons.prems have "rrdf_times_loop ?dec ps acc = Inr idx'" by simp
      from Cons.IH[OF this Cons.prems(2)] None show ?thesis by (auto simp: parse_name_def)
    next
      case (Some g)
      obtain d t where g: "g = (d, t)" by (cases g)
      with Some Cons.prems(1) obtain ts where ts: "strptime_compact ?dec d t = Inr ts"
        and rec: "rrdf_times_loop ?dec ps (dict_set acc q ts) = Inr idx'"
        by (auto split: sum.splits)
      have pq: "parse_name ?dec q = Some ts" using Some g ts by (simp add: parse_name_def)
      from Cons.IH[OF rec dict_set_distinct[OF Cons.prems(2)]]
      show ?thesis using pq by (auto simp: map_of_dict_set)
    qed
  qed
  have loop_Inl: "\<exists>p \<in> set ps. \<exists>d t. search_h5 ?dec (basename p) = Some (d, t)
                     \<and> strptime_compact ?dec d t = Inl e"
    if "rrdf_times_loop ?dec ps acc = Inl e" for ps acc
    using that
  proof (induction ps arbitrary: acc)
    case Nil
    then show ?case by simp
  next
    case (Cons q ps)
    then show ?case by (auto split: option.splits sum.splits)
  qed
  show ?thesis
  proof (intro conjI impI allI)
    fix p ts
    assume ok: "parse_rrdf_timestamps E w folder = Inr idx"
    then have "rrdf_times_loop ?dec ?ps [] = Inr idx" by (simp add: parse_rrdf_timestamps_def)
    from loop_Inr[OF this] have dist: "distinct (map fst idx)"
      and m: "\<And>p. map_of idx p =
                   (if p \<in> set ?ps \<and> parse_name ?dec p \<noteq> None then parse_name ?dec p else None)"
      by auto
    have mem: "(p, ts) \<in> set idx \<longleftrightarrow> map_of idx p = Some ts" using dist by simp
    show "(p, ts) \<in> set idx \<longleftrightarrow>
           p \<in> set ?ps \<and>
           (\<exists>i d t. h5_stamp_at ?dec (basename p) i d t
              \<and> (\<forall>j d' t'. h5_stamp_at ?dec (basename p) j d' t' \<longrightarrow> i \<le> j)
              \<and> strptime_compact ?dec d t = Inr ts)"
    proof
      assume "(p, ts) \<in> set idx"
      with mem m[of p] have pin: "p \<in> set ?ps" and pn: "parse_name ?dec p = Some ts"
        by (auto split: if_splits)
      from pn obtain d t where r: "search_h5 ?dec (basename p) = Some (d, t)"
        and s: "strptime_compact ?dec d t = Inr ts"
        by (auto simp: parse_name_def split: option.splits sum.splits)
      from search_h5_Some[OF r] pin s show "p \<in> set ?ps \<and>
           (\<exists>i d t. h5_stamp_at ?dec (basename p) i d t
              \<and> (\<forall>j d' t'. h5_stamp_at ?dec (basename p) j d' t' \<longrightarrow> i \<le> j)
              \<and> strptime_compact ?dec d t = Inr ts)" by blast
    next
      assume "p \<in> set ?ps \<and>
           (\<exists>i d t. h5_stamp_at ?dec (basename p) i d t
              \<and> (\<forall>j d' t'. h5_stamp_at ?dec (basename p) j d' t' \<longrightarrow> i \<le> j)
              \<and> strptime_compact ?dec d t = Inr ts)"
      then obtain i d t where pin: "p \<in> set ?ps" and st: "h5_stamp_at ?dec (basename p) i d t"
        and least: "\<forall>j d' t'. h5_stamp_at ?dec (basename p) j d' t' \<longrightarrow> i \<le> j"
        and s: "strptime_compact ?dec d t = Inr ts" by blast
      from search_h5_leftmost[OF st least] s have "parse_name ?dec p = Some ts"
        by (simp add: parse_name_def)
      with pin m[of p] mem show "(p, ts) \<in> set idx" by simp
    qed
  next
    assume "parse_rrdf_timestamps E w folder = Inl e"
    then have "rrdf_times_loop ?dec ?ps [] = Inl e"
      by (simp add: parse_rrdf_timestamps_def)
    from loop_Inl[OF this] obtain p d t where pin: "p \<in> set ?ps"
      and r: "search_h5 ?dec (basename p) = Some (d, t)"
      and s: "strptime_compact ?dec d t = Inl e" by blast
    from search_h5_Some[OF r] pin s
    show "\<exists>p \<in> set ?ps.
             \<exists>i d t. h5_stamp_at ?dec (basename p) i d t
               \<and> (\<forall>j d' t'. h5_stamp_at ?dec (basename p) j d' t' \<longrightarrow> i \<le> j)
               \<and> strptime_compact ?dec d t = Inl e"
      by blast
  qed
qed

theorem rrdf_index_unanchored_witness:
  "parse_rrdf_timestamps fs_env w_h5_arabic ''d'' =
     Inr [(''d/s_'' @ [CHR 0xD9, CHR 0xA2, CHR 0xD9, CHR 0xA0, CHR 0xD9, CHR 0xA2, CHR 0xD9, CHR 0xA4]
             @ ''0115_143022.h5'', mk_datetime 2024 1 15 14 30 22 0)]
   \<and> (\<forall>p ts. (p, ts) \<in> set [(''d/s_'' @ [CHR 0xD9, CHR 0xA2, CHR 0xD9, CHR 0xA0, CHR 0xD9, CHR 0xA2,
                                        CHR 0xD9, CHR 0xA4] @ ''0115_143022.h5'',
                              mk_datetime 2024 1 15 14 30 22 0)] \<longleftrightarrow>
         p \<in> set (glob_files fs_env w_h5_arabic ''d'' ''.h5'') \<and>
         (\<exists>i d t. h5_stamp_at (unicode_decimal fs_env) (basename p) i d t
            \<and> (\<forall>j d' t'. h5_stamp_at (unicode_decimal fs_env) (basename p) j d' t' \<longrightarrow> i \<le> j)
            \<and> strptime_compact (unicode_decimal fs_env) d t = Inr ts))
   \<and> parse_rrdf_timestamps fs_env w_h5_arabic_month ''d'' = Inl ValueError
   \<and> (\<exists>p \<in> set (glob_files fs_env w_h5_arabic_month ''d'' ''.h5'').
         \<exists>i d t. h5_stamp_at (unicode_decimal fs_env) (basename p) i d t
           \<and> (\<forall>j d' t'. h5_stamp_at (unicode_decimal fs_env) (basename p) j d' t' \<longrightarrow> i \<le> j)
           \<and> strptime_compact (unicode_decimal fs_env) d t = Inl ValueError)"
proof -
  have h: "parse_rrdf_timestamps fs_env w_h5_arabic ''d'' =
     Inr [(''d/s_'' @ [CHR 0xD9, CHR 0xA2, CHR 0xD9, CHR 0xA0, CHR 0xD9, CHR 0xA2, CHR 0xD9, CHR 0xA4]
             @ ''0115_143022.h5'', mk_datetime 2024 1 15 14 30 22 0)]"
    by code_simp
  have f: "parse_rrdf_timestamps fs_env w_h5_arabic_month ''d'' = Inl ValueError"
    by code_simp
  note t = rrdf_index_unanchored[of fs_env w_h5_arabic "''d''" _ ValueError]
  note a = mp[OF conjunct1[OF t] h]
  note u = rrdf_index_unanchored[of fs_env w_h5_arabic_month "''d''" "[]" ValueError]
  note b = mp[OF conjunct2[OF u] f]
  show ?thesis
    apply (intro conjI)
       apply (rule h)
      apply (rule a)
     apply (rule f)
    apply (rule b)
    done
qed

text \<open>
  The claim as stated fails: the file \<open>a_20240115_143022.h5.h5\<close> does not match the
  pattern anchored at the end of the name, and it is in the index.
\<close>

theorem rrdf_index_anchored_counterexample:
  "\<not> spec_matches_anchored ''.h5'' ''a_20240115_143022.h5.h5''
   \<and> spec_matches_anchored ''.h5'' ''scan_20240115_143022.h5''
   \<and> parse_rrdf_timestamps fs_env w_h5 ''d'' =
       Inr [(''d/scan_20240115_143022.h5'', mk_datetime 2024 1 15 14 30 22 0),
            (''d/a_20240115_143022.h5.h5'', mk_datetime 2024 1 15 14 30 22 0)]"
  by code_simp

lemma relocate_parse_failure:
  "parse_rrdf_timestamps E w temp = Inl e \<Longrightarrow>
   relocate_rrdf_files_by_time E temp session w out =
     Raised e w (snd (get_dicom_acquisition_times E w session (out @ [StartRelocation])))"
  by (simp add: relocate_rrdf_files_by_time_def split: prod.splits)

lemma main_parse_failure:
  assumes "get_latest_exam_folder text = Inr (Some latest)" "latest \<noteq> []"
    and "download E w (''RRDF/'' @ latest) = (None, w1)"
    and "find_dicom_session_path E w1 DICOM_EXPORT_ROOT latest
           [LatestExam latest, Downloading (''RRDF/'' @ latest), DownloadComplete] = (Some sp, out1)"
    and "sp \<noteq> []"
    and "parse_rrdf_timestamps E w1 (path_join TEMP_DOWNLOAD_DIR latest) = Inl e"
  shows "main E text w =
           Raised e (snd (cleanup E w1))
             (snd (get_dicom_acquisition_times E w1 sp (out1 @ [StartRelocation]))
                @ (if fst (cleanup E w1) then [CleanedUp, ClosingConnection] else [ClosingConnection]))"
  using assms
  by (simp add: main_def main_try_def relocate_parse_failure finally_cleanup_def
        split: prod.splits bool.splits)

text \<open>
  C2. A raw file named \<open>scan_20241301_143022.h5\<close> matches the pattern and has
  month 13. \<open>strptime\<close> raises \<open>ValueError\<close> inside \<open>parse_rrdf_timestamps\<close>,
  which has no handler; the exception leaves \<open>relocate_rrdf_files_by_time\<close> and
  \<open>main\<close>. Nothing is logged for the file, and the other raw file of the exam, two
  seconds from its acquisition, is not relocated.
\<close>

theorem invalid_calendar_digits_abort_run:
  "spec_matches_anchored ''.h5'' ''scan_20241301_143022.h5''
   \<and> strptime_compact (unicode_decimal fs_env) ''20241301'' ''143022'' = Inl ValueError
   \<and> parse_rrdf_timestamps fs_env w_badmonth (path_join TEMP_DOWNLOAD_DIR ''rrdf_20240601_090000'')
       = Inl ValueError
   \<and> main fs_env listing_20240601 w_badmonth =
       Raised ValueError w_badmonth_after
         [LatestExam ''rrdf_20240601_090000'', Downloading ''RRDF/rrdf_20240601_090000'',
          DownloadComplete, Searching ''2024-06-01_09_00_00'',
          FoundSession ''/var/lib/orthanc/export/2024-06-01_09_00_00'',
          StartRelocation, CleanedUp, ClosingConnection]"
proof -
  have m: "spec_matches_anchored ''.h5'' ''scan_20241301_143022.h5''" by code_simp
  have s: "strptime_compact (unicode_decimal fs_env) ''20241301'' ''143022'' = Inl ValueError"
    by code_simp
  have g: "get_latest_exam_folder listing_20240601 = Inr (Some ''rrdf_20240601_090000'')"
    by code_simp
  have d: "download fs_env w_badmonth (''RRDF/'' @ ''rrdf_20240601_090000'') = (None, w_badmonth)"
    by (simp add: fs_env_def)
  have f: "find_dicom_session_path fs_env w_badmonth DICOM_EXPORT_ROOT ''rrdf_20240601_090000''
             [LatestExam ''rrdf_20240601_090000'', Downloading (''RRDF/'' @ ''rrdf_20240601_090000''),
              DownloadComplete] =
           (Some ''/var/lib/orthanc/export/2024-06-01_09_00_00'',
            [LatestExam ''rrdf_20240601_090000'', Downloading ''RRDF/rrdf_20240601_090000'',
             DownloadComplete, Searching ''2024-06-01_09_00_00'',
             FoundSession ''/var/lib/orthanc/export/2024-06-01_09_00_00''])"
    by code_simp
  have a: "snd (get_dicom_acquisition_times fs_env w_badmonth
                  ''/var/lib/orthanc/export/2024-06-01_09_00_00''
                  ([LatestExam ''rrdf_20240601_090000'', Downloading ''RRDF/rrdf_20240601_090000'',
                    DownloadComplete, Searching ''2024-06-01_09_00_00'',
                    FoundSession ''/var/lib/orthanc/export/2024-06-01_09_00_00'']
                   @ [StartRelocation])) =
           [LatestExam ''rrdf_20240601_090000'', Downloading ''RRDF/rrdf_20240601_090000'',
            DownloadComplete, Searching ''2024-06-01_09_00_00'',
            FoundSession ''/var/lib/orthanc/export/2024-06-01_09_00_00'', StartRelocation]"
    by code_simp
  have p: "parse_rrdf_timestamps fs_env w_badmonth
             (path_join TEMP_DOWNLOAD_DIR ''rrdf_20240601_090000'') = Inl ValueError"
    by code_simp
  have c: "cleanup fs_env w_badmonth = (True, w_badmonth_after)" by code_simp
  have ne: "''rrdf_20240601_090000'' \<noteq> []" "''/var/lib/orthanc/export/2024-06-01_09_00_00'' \<noteq> []"
    by simp_all
  have r: "main fs_env listing_20240601 w_badmonth =
       Raised ValueError w_badmonth_after
         [LatestExam ''rrdf_20240601_090000'', Downloading ''RRDF/rrdf_20240601_090000'',
          DownloadComplete, Searching ''2024-06-01_09_00_00'',
          FoundSession ''/var/lib/orthanc/export/2024-06-01_09_00_00'',
          StartRelocation, CleanedUp, ClosingConnection]"
    unfolding main_parse_failure[OF g ne(1) d f ne(2) p] a c by simp
  from m s p r show ?thesis by simp
qed

subsection \<open>Matching and relocation\<close>












text \<open>
  The run on the example world. Both raw files near the first acquisition go to its
  folder and both are renamed to \<open>acq1.h5\<close>: in this file system the second rename
  replaces the file the first one put there. The third raw file stays where it is.
\<close>

lemma shared_folder_run_example:
  "relocate_rrdf_files_by_time fs_env ''d'' ''s'' w_reloc [] =
     Done w_reloc_final
       [StartRelocation,
        MatchFound ''x_20240601_090030.h5'' ''acq1'', Renaming ''x_20240601_090030.h5'' ''acq1.h5'',
        MatchFound ''y_20240601_090040.h5'' ''acq1'', Renaming ''y_20240601_090040.h5'' ''acq1.h5'',
        NoCloseMatch ''z_20240601_120000.h5'']"
  by code_simp



text \<open>
  C4. When \<open>move_and_rename\<close> reports no move or rename error, the move into the
  folder succeeded and the file was then renamed, inside the folder, to a path whose
  base name is the folder's base name followed by \<open>.h5\<close>, whatever the file was
  called before.
\<close>

theorem relocated_file_named_after_folder:
  assumes run: "move_and_rename E rrdf_path folder w out = (w', out')"
    and ok: "\<forall>e. MoveRenameError e \<notin> set (drop (length out) out')"
  shows "\<exists>w1 w2. shutil_move E w rrdf_path folder = (None, w1)
           \<and> os_rename E w1 (path_join folder (basename rrdf_path))
                (path_join folder (basename (normpath folder) @ ''.h5'')) = (None, w2)
           \<and> basename (path_join folder (basename (normpath folder) @ ''.h5''))
                = basename (normpath folder) @ ''.h5''"
proof -
  have bn: "basename (path_join folder (basename (normpath folder) @ ''.h5''))
              = basename (normpath folder) @ ''.h5''"
    by (rule basename_join_suffix) (simp add: slash_def)
  obtain x w1 where m: "shutil_move E w rrdf_path folder = (x, w1)"
    by (cases "shutil_move E w rrdf_path folder")
  have x: "x = None"
  proof (cases x)
    case (Some e)
    with m run have "out' = out @ [MatchFound (basename rrdf_path) (basename (normpath folder)),
                                   MoveRenameError e]"
      by (simp add: move_and_rename_def Let_def)
    with ok show ?thesis by auto
  qed simp
  obtain y w2 where r: "os_rename E w1 (path_join folder (basename rrdf_path))
                          (path_join folder (basename (normpath folder) @ ''.h5'')) = (y, w2)"
    by (cases "os_rename E w1 (path_join folder (basename rrdf_path))
                          (path_join folder (basename (normpath folder) @ ''.h5''))")
  have y: "y = None"
  proof (cases y)
    case (Some e)
    with m x r run have "out' = out @ [MatchFound (basename rrdf_path) (basename (normpath folder)),
                                   Renaming (basename rrdf_path) (basename (normpath folder) @ ''.h5''),
                                   MoveRenameError e]"
      by (simp add: move_and_rename_def Let_def)
    with ok show ?thesis by auto
  qed simp
  from m x r y bn show ?thesis by simp
qed


theorem relocated_file_named_after_folder_witness:
  "move_and_rename fs_env ''d/x_20240601_090030.h5'' ''s/acq1/'' w_reloc [] =
     (w_reloc_x, [MatchFound ''x_20240601_090030.h5'' ''acq1'',
                  Renaming ''x_20240601_090030.h5'' ''acq1.h5''])
   \<and> (\<forall>e. MoveRenameError e \<notin> set (drop (length ([]::event list))
               [MatchFound ''x_20240601_090030.h5'' ''acq1'',
                Renaming ''x_20240601_090030.h5'' ''acq1.h5'']))
   \<and> (\<exists>w1 w2. shutil_move fs_env w_reloc ''d/x_20240601_090030.h5'' ''s/acq1/'' = (None, w1)
           \<and> os_rename fs_env w1 (path_join ''s/acq1/'' (basename ''d/x_20240601_090030.h5''))
                (path_join ''s/acq1/'' (basename (normpath ''s/acq1/'') @ ''.h5'')) = (None, w2)
           \<and> basename (path_join ''s/acq1/'' (basename (normpath ''s/acq1/'') @ ''.h5''))
                = basename (normpath ''s/acq1/'') @ ''.h5'')
   \<and> basename (normpath ''s/acq1/'') @ ''.h5'' = ''acq1.h5''"
proof -
  have r: "move_and_rename fs_env ''d/x_20240601_090030.h5'' ''s/acq1/'' w_reloc [] =
     (w_reloc_x, [MatchFound ''x_20240601_090030.h5'' ''acq1'',
                  Renaming ''x_20240601_090030.h5'' ''acq1.h5''])"
    by code_simp
  have ok: "\<forall>e. MoveRenameError e \<notin> set (drop (length ([]::event list))
               [MatchFound ''x_20240601_090030.h5'' ''acq1'',
                Renaming ''x_20240601_090030.h5'' ''acq1.h5''])"
    by simp
  have n: "basename (normpath ''s/acq1/'') @ ''.h5'' = ''acq1.h5''" by code_simp
  note c = relocated_file_named_after_folder[OF r ok]
  show ?thesis
    apply (intro conjI)
       apply (rule r)
      apply (rule ok)
     apply (rule c)
    apply (rule n)
    done
qed




subsection \<open>The remote listing\<close>






subsection \<open>The whole run\<close>

text \<open>
  The end-to-end scenario: the raw file moves into \<open>calipr_series\<close> as
  \<open>calipr_series.h5\<close>, and the two DICOM files become
  \<open>calipr_series_protonDensity.dcm\<close> (content time \<open>090031.2\<close>) and
  \<open>calipr_series_T2map.dcm\<close> (content time \<open>090033.8\<close>).
\<close>

lemma end_to_end_scenario:
  "main fs_env listing_20240601 w_scenario =
     Done w_scenario_after
       [LatestExam ''rrdf_20240601_090000'', Downloading ''RRDF/rrdf_20240601_090000'',
        DownloadComplete, Searching ''2024-06-01_09_00_00'',
        FoundSession ''/var/lib/orthanc/export/2024-06-01_09_00_00'',
        StartRelocation,
        MatchFound ''scan_20240601_090030.h5'' ''calipr_series'',
        Renaming ''scan_20240601_090030.h5'' ''calipr_series.h5'',
        CaliprStart ''calipr_series'',
        CaliprRenamingPD ''calipr_series_protonDensity.dcm'',
        CaliprRenamingT2 ''calipr_series_T2map.dcm'',
        CleanedUp, ClosingConnection]"
  by code_simp

end
